theory Spec2Isabelle
  imports Complex_Main "HOL-Library.Multiset" "HOL-Library.Signed_Division" "HOL-Library.Log_Nat"
begin

section \<open>Geometry of the text detection demo\<close>

text \<open>
  The demo works on OpenCV's single-precision points. A \<open>float\<close> other than NaN is
  modelled by the real number it denotes: the comparisons \<open><\<close>, \<open>>\<close>, \<open>==\<close> and
  \<open>!=\<close> of the source agree with the comparisons of these reals (both zeros denote 0),
  and positive infinity is any value above \<open>FLT_MAX\<close>. NaN is outside the model.
  The C++ \<open>int\<close> is modelled by \<open>int\<close>; no arithmetic of the modelled code comes near
  the 32-bit bounds for the sizes of an image.
\<close>

datatype point2f = Point2f (pt_x: real) (pt_y: real)

text \<open>\<open>std::numeric_limits<float>::max()\<close>, the largest finite float.\<close>

definition FLT_MAX :: real where
  "FLT_MAX = (2 ^ 24 - 1) * 2 ^ 104"

subsection \<open>topLeftPoint\<close>

text \<open>The four local variables of \<open>topLeftPoint\<close> that the loop updates.\<close>

record tl_state =
  most_left :: point2f
  almost_most_left :: point2f
  most_left_idx :: int
  almost_most_left_idx :: int

definition tl_init :: tl_state where
  "tl_init = \<lparr> most_left = Point2f FLT_MAX FLT_MAX,
               almost_most_left = Point2f FLT_MAX FLT_MAX,
               most_left_idx = - 1,
               almost_most_left_idx = - 1 \<rparr>"

text \<open>One pass through the body of the \<open>for\<close> loop, at index \<open>i\<close>.\<close>

definition tl_body :: "point2f list \<Rightarrow> nat \<Rightarrow> tl_state \<Rightarrow> tl_state" where
  "tl_body points i s =
     (let s1 =
        (if pt_x (most_left s) > pt_x (points ! i) then
           (let s0 =
              (if pt_x (most_left s) \<noteq> FLT_MAX
               then s\<lparr> almost_most_left := most_left s,
                       almost_most_left_idx := most_left_idx s \<rparr>
               else s)
            in s0\<lparr> most_left := points ! i, most_left_idx := int i \<rparr>)
         else s)
      in if pt_x (almost_most_left s1) > pt_x (points ! i) \<and> points ! i \<noteq> most_left s1
         then s1\<lparr> almost_most_left := points ! i, almost_most_left_idx := int i \<rparr>
         else s1)"

text \<open>\<open>for (size_t i = 0; i < points.size(); i++)\<close>, entered at index \<open>i\<close>.\<close>

function tl_loop :: "point2f list \<Rightarrow> nat \<Rightarrow> tl_state \<Rightarrow> tl_state" where
  "tl_loop points i s =
     (if i < length points then tl_loop points (Suc i) (tl_body points i s) else s)"
  by pat_completeness auto
termination
  by (relation "measure (\<lambda>(points, i, s). length points - i)") auto

declare tl_loop.simps [simp del]

text \<open>The comparison of the two candidates by \<open>y\<close> after the loop.\<close>

definition tl_final :: "tl_state \<Rightarrow> tl_state" where
  "tl_final s =
     (if pt_y (almost_most_left s) < pt_y (most_left s)
      then s\<lparr> most_left := almost_most_left s, most_left_idx := almost_most_left_idx s \<rparr>
      else s)"

text \<open>
  \<open>topLeftPoint\<close> gives back two things: the value written to \<open>*idx\<close> and the point
  \<open>most_left\<close>. The source returns the point converted to an integer \<open>cv::Point\<close> by
  OpenCV's conversion operator, and its only caller drops that value; the model returns
  the float point \<open>most_left\<close> itself, before the conversion, paired with the index.
\<close>

definition topLeftPoint :: "point2f list \<Rightarrow> point2f \<times> int" where
  "topLeftPoint points =
     (let s = tl_final (tl_loop points 0 tl_init)
      in (most_left s, most_left_idx s))"

subsection \<open>cropImage\<close>

text \<open>
  What a run of the modelled code can end with, other than a normal return: the three
  exception types that \<open>main\<close> throws, the \<open>cv::Exception\<close> with which OpenCV refuses
  a window outside a picture, and a read of a \<open>std::vector\<close> outside its bounds, which
  C++ leaves undefined and the model records as an outcome of its own.
\<close>

datatype error =
    logic_error string
  | invalid_argument string
  | runtime_error string
  | cv_Exception string
  | OutOfBounds

text \<open>\<open>v[k]\<close> for a \<open>std::vector\<close> \<open>v\<close> and an \<open>int\<close> \<open>k\<close>.\<close>

definition at_idx :: "'a list \<Rightarrow> int \<Rightarrow> error + 'a" where
  "at_idx v k = (if 0 \<le> k \<and> k < int (length v) then Inr (v ! nat k) else Inl OutOfBounds)"

text \<open>
  \<open>static_cast<float>(n)\<close> for an \<open>int\<close> \<open>n\<close>: the nearest float, ties to the even
  significand of 24 bits. \<open>floorlog 2 m\<close> is the number of bits of \<open>m\<close>.
\<close>

definition float_of_int :: "int \<Rightarrow> real" where
  "float_of_int n =
     (let m = nat \<bar>n\<bar>;
          k = floorlog 2 m - 24;
          q = m div 2 ^ k;
          r = m mod 2 ^ k;
          q' = (if 2 * r > 2 ^ k \<or> (2 * r = 2 ^ k \<and> odd q) then q + 1 else q)
      in real_of_int (sgn n) * real (q' * 2 ^ k))"

text \<open>
  \<open>static_cast<int>(v)\<close> for a floating-point \<open>v\<close>: truncation towards zero. For a
  value outside the range of \<open>int\<close> C++ leaves the result open; the model truncates
  there as well, and no property below depends on which integer results.
\<close>

definition static_cast_int :: "real \<Rightarrow> int" where
  "static_cast_int v = (if 0 \<le> v then \<lfloor>v\<rfloor> else \<lceil>v\<rceil>)"

datatype size2i = Size (sz_width: int) (sz_height: int)

datatype rect2i = Rect (r_x: int) (r_y: int) (r_width: int) (r_height: int)

text \<open>
  A \<open>cv::Mat\<close> that the frame source delivers: its dimensions and, as an opaque
  number, its pixels. \<open>Mat::empty()\<close> holds when the matrix has no element.
\<close>

record mat =
  cols :: int
  rows :: int
  pixels :: nat

definition mat_empty :: "mat \<Rightarrow> bool" where
  "mat_empty m = (cols m * rows m = 0)"

text \<open>
  OpenCV's \<open>getAffineTransform\<close> and \<open>warpAffine\<close> are outside the repository. The
  model keeps the matrix \<open>M\<close> and the crop as the terms that were asked for: the
  arguments of the two calls. The same type holds the two other ways in which \<open>main\<close>
  obtains the picture that it hands to the recognizer.
\<close>

datatype affine = getAffineTransform "point2f list" "point2f list"

datatype cropped =
    warpAffine mat affine size2i
  | Roi mat rect2i
  | Whole mat

definition cropImage :: "mat \<Rightarrow> point2f list \<Rightarrow> size2i \<Rightarrow> int \<Rightarrow> error + cropped" where
  "cropImage img points target_size top_left_point_idx =
     (case at_idx points top_left_point_idx of
        Inl e \<Rightarrow> Inl e
      | Inr point0 \<Rightarrow>
     (case at_idx points ((top_left_point_idx + 1) smod 4) of
        Inl e \<Rightarrow> Inl e
      | Inr point1 \<Rightarrow>
     (case at_idx points ((top_left_point_idx + 2) smod 4) of
        Inl e \<Rightarrow> Inl e
      | Inr point2 \<Rightarrow>
          (let from_pts = [point0, point1, point2];
               to_pts =
                 [Point2f 0 0,
                  Point2f (float_of_int (sz_width target_size - 1)) 0,
                  Point2f (float_of_int (sz_width target_size - 1))
                          (float_of_int (sz_height target_size - 1))]
           in Inr (warpAffine img (getAffineTransform from_pts to_pts) target_size)))))"

section \<open>The frame loop of main\<close>

subsection \<open>Command line and collaborators\<close>

text \<open>
  The command-line flags that decide what \<open>main\<close> does itself. The flags that \<open>main\<close>
  only hands on to the inference engine, to the detector's post-processing or to the
  frame source (devices, extension libraries, pixel thresholds, input type and sizes)
  are part of the collaborators below.
\<close>

record flags =
  FLAGS_h :: bool
  FLAGS_i :: string
  FLAGS_m_td :: string
  FLAGS_m_tr :: string
  FLAGS_m_tr_ss :: string
  FLAGS_thr :: real
  FLAGS_max_rect_num :: int
  FLAGS_cc :: bool
  FLAGS_r :: bool
  FLAGS_no_show :: bool

datatype size2f = Size2f (sf_width: real) (sf_height: real)

datatype rotated_rect = RotatedRect (rr_center: point2f) (rr_size: size2f) (rr_angle: real)

text \<open>
  What \<open>main\<close> calls and this file does not hold: OpenCV, the C++ library, the two
  networks with their post-processing, the frame source and the keyboard.
  \<^item> \<open>grabber\<close>: the non-empty or empty pictures that \<open>GrabNextImage\<close> delivers, in
    order, each with the key that \<open>waitKey\<close> reports (as the \<open>char k\<close>) while that frame
    is on display; after the last one \<open>GrabNextImage\<close> delivers an empty picture;
  \<^item> \<open>td_postProcess\<close>: \<open>text_detection.Infer\<close> followed by \<open>postProcess\<close>;
  \<^item> \<open>rect_points\<close>: \<open>RotatedRect::points\<close>, which fills an array of four vertices;
  \<^item> \<open>float_mul\<close>: the product of two floats, by which \<open>Size2f::area\<close> is computed;
  \<^item> \<open>std_sort\<close>: \<open>std::sort\<close> with a comparison function;
  \<^item> \<open>tr_input_size\<close>: \<open>text_recognition.input_size()\<close>;
  \<^item> \<open>tr_Infer\<close>: \<open>text_recognition.Infer\<close>, as the dimensions of the first output
    blob and its buffer of floats;
  \<^item> \<open>CTCGreedyDecoder\<close>: the decoder, from the data, the alphabet, the pad symbol and
    the value of \<open>conf\<close> before the call to the string and the value of \<open>conf\<close>
    after it;
  \<^item> \<open>roi_what\<close>: the message of the \<open>cv::Exception\<close> that OpenCV throws for a
    window outside a picture.
\<close>

record env =
  grabber :: "(mat \<times> int) list"
  td_postProcess :: "mat \<Rightarrow> rotated_rect list"
  rect_points :: "rotated_rect \<Rightarrow> point2f \<times> point2f \<times> point2f \<times> point2f"
  float_mul :: "real \<Rightarrow> real \<Rightarrow> real"
  std_sort :: "(rotated_rect \<Rightarrow> rotated_rect \<Rightarrow> bool) \<Rightarrow> rotated_rect list \<Rightarrow> rotated_rect list"
  tr_input_size :: size2i
  tr_Infer :: "cropped \<Rightarrow> nat list \<times> real list"
  CTCGreedyDecoder :: "real list \<Rightarrow> string \<Rightarrow> char \<Rightarrow> real \<Rightarrow> string \<times> real"
  roi_what :: string

text \<open>
  What the C++ standard promises of \<open>std::sort (first, last, comp)\<close>: the elements are
  rearranged, and no element is \<open>comp\<close>-before an element that stands earlier. The
  order of elements that \<open>comp\<close> does not separate is left open.
\<close>

definition std_sort_post :: "('a \<Rightarrow> 'a \<Rightarrow> bool) \<Rightarrow> 'a list \<Rightarrow> 'a list \<Rightarrow> bool" where
  "std_sort_post cmp xs ys = (mset ys = mset xs \<and> sorted_wrt (\<lambda>a b. \<not> cmp b a) ys)"

text \<open>
  Modelled from the spec: \<open>Cnn::is_initialized()\<close> of \<open>cnn.hpp\<close>. The detector and
  the recognizer "may be absent"; \<open>main\<close> calls \<open>Init\<close> on a network exactly when the
  path of its model is not empty, and \<open>is_initialized()\<close> is taken to tell whether
  \<open>Init\<close> was called. Loading the plugins and the models is taken to return.
\<close>

definition td_is_initialized :: "flags \<Rightarrow> bool" where
  "td_is_initialized fl = (FLAGS_m_td fl \<noteq> [])"

definition tr_is_initialized :: "flags \<Rightarrow> bool" where
  "tr_is_initialized fl = (FLAGS_m_tr fl \<noteq> [])"

subsection \<open>Output\<close>

text \<open>
  What is written to \<open>std::cout\<close> with \<open><<\<close>, one token for each operand, and the
  trace of a run: the writes to \<open>std::cout\<close>, each display of a frame (with the count
  \<open>num_found\<close> that is drawn on it) and the message written to \<open>std::cerr\<close>. The drawing
  on the displayed copy of the frame and the frame rate, which is a wall-clock
  measurement, are left out of the trace.
\<close>

datatype token = TInt int | TStr string | TEndl

datatype event = Usage | Cout token | Imshow int | Cerr string

subsection \<open>ParseAndCheckCommandLine and clip\<close>

definition ParseAndCheckCommandLine :: "flags \<Rightarrow> error + bool" where
  "ParseAndCheckCommandLine fl =
     (if FLAGS_h fl then Inr False
      else if FLAGS_i fl = [] then Inl (logic_error ''Parameter -i is not set'')
      else if FLAGS_m_td fl = [] \<and> FLAGS_m_tr fl = []
        then Inl (logic_error ''Neither parameter -m_td nor -m_tr is not set'')
      else Inr True)"

definition clip :: "int \<Rightarrow> int \<Rightarrow> int" where
  "clip x max_val = min (max x 0) max_val"

subsection \<open>One region\<close>

definition floatPointsFromRotatedRect :: "env \<Rightarrow> rotated_rect \<Rightarrow> point2f list" where
  "floatPointsFromRotatedRect ev rect =
     (case rect_points ev rect of
        (v0, v1, v2, v3) \<Rightarrow>
          [Point2f (pt_x v0) (pt_y v0), Point2f (pt_x v1) (pt_y v1),
           Point2f (pt_x v2) (pt_y v2), Point2f (pt_x v3) (pt_y v3)])"

text \<open>
  \<open>image(r)\<close>, the window \<open>r\<close> of a picture: OpenCV asserts that the rectangle lies
  inside the picture and throws a \<open>cv::Exception\<close>, which is a \<open>std::exception\<close>,
  when it does not.
\<close>

definition mat_roi :: "env \<Rightarrow> mat \<Rightarrow> rect2i \<Rightarrow> error + cropped" where
  "mat_roi ev img r =
     (if 0 \<le> r_x r \<and> 0 \<le> r_width r \<and> r_x r + r_width r \<le> cols img
         \<and> 0 \<le> r_y r \<and> 0 \<le> r_height r \<and> r_y r + r_height r \<le> rows img
      then Inr (Roi img r)
      else Inl (cv_Exception (roi_what ev)))"

text \<open>
  Lines 173 to 177 of \<open>main\<close>: the window at the centre of a frame. It is computed in
  \<open>double\<close>; the products by 0.5 are exact there, and the product of a number of
  columns by 0.05 truncates to the same integer as the exact product, which the model
  takes.
\<close>

definition center_window :: "mat \<Rightarrow> rect2i" where
  "center_window img =
     (let w = static_cast_int (real_of_int (cols img) * 0.05);
          h = static_cast_int (real_of_int w * 0.5);
          tl_x = static_cast_int (real_of_int (cols img) * 0.5 - real_of_int w * 0.5);
          tl_y = static_cast_int (real_of_int (rows img) * 0.5 - real_of_int h * 0.5)
      in Rect tl_x tl_y w h)"

text \<open>
  Lines 160 to 184 of \<open>main\<close>: the picture for the recognizer, the points of the region
  and \<open>top_left_point_idx\<close>. A region of a size other than zero, with a detector, is
  rectified; any other region takes the frame, or the window at its centre, of which
  \<open>r.tl()\<close> is the one point. The other calls into OpenCV are taken to return.
\<close>

definition crop_region ::
    "env \<Rightarrow> flags \<Rightarrow> mat \<Rightarrow> rotated_rect \<Rightarrow> error + (cropped \<times> point2f list \<times> int)" where
  "crop_region ev fl img rect =
     (if rr_size rect \<noteq> Size2f 0 0 \<and> td_is_initialized fl then
        (let points = floatPointsFromRotatedRect ev rect;
             top_left_point_idx = snd (topLeftPoint points)
         in case cropImage img points (tr_input_size ev) top_left_point_idx of
              Inl e \<Rightarrow> Inl e
            | Inr cropped_text \<Rightarrow> Inr (cropped_text, points, top_left_point_idx))
      else if FLAGS_cc fl then
        (let r = center_window img
         in case mat_roi ev img r of
              Inl e \<Rightarrow> Inl e
            | Inr cropped_text \<Rightarrow>
                Inr (cropped_text, [Point2f (float_of_int (r_x r)) (float_of_int (r_y r))], 0))
      else Inr (Whole img, [], 0))"

definition kPadSymbol :: char where
  "kPadSymbol = CHR ''#''"

definition alphabet_mismatch_message :: string where
  "alphabet_mismatch_message = ''The text recognition model does not correspond to alphabet.''"

text \<open>
  Lines 186 to 204: the string \<open>res\<close> and the confidence \<open>conf\<close> of a region. The read
  \<open>output_shape[2]\<close> is outside the vector when the blob has fewer than three
  dimensions. The buffer of the blob is taken to hold the
  \<open>output_shape[0] * output_shape[2]\<close> floats that are copied from it.
\<close>

definition recognize_region ::
    "env \<Rightarrow> flags \<Rightarrow> string \<Rightarrow> cropped \<Rightarrow> error + (string \<times> real)" where
  "recognize_region ev fl kAlphabet cropped_text =
     (if tr_is_initialized fl then
        (case tr_Infer ev cropped_text of
           (output_shape, buffer) \<Rightarrow>
             if length output_shape \<le> 2 then Inl OutOfBounds
             else if output_shape ! 2 \<noteq> length kAlphabet
               then Inl (runtime_error alphabet_mismatch_message)
             else
               (let output_data = take (output_shape ! 0 * output_shape ! 2) buffer
                in case CTCGreedyDecoder ev output_data kAlphabet kPadSymbol 1 of
                     (res, conf) \<Rightarrow>
                       Inr (if conf \<ge> FLAGS_thr fl then res else [], conf)))
      else Inr ([], 1))"

text \<open>Lines 207 to 212: the loop that prints the points, entered at index \<open>i\<close>.\<close>

function print_points :: "point2f list \<Rightarrow> mat \<Rightarrow> nat \<Rightarrow> token list" where
  "print_points points img i =
     (if i < length points then
        [TInt (clip (static_cast_int (pt_x (points ! i))) (cols img - 1)),
         TStr '','',
         TInt (clip (static_cast_int (pt_y (points ! i))) (rows img - 1))]
        @ (if i \<noteq> length points - 1 then [TStr '',''] else [])
        @ print_points points img (Suc i)
      else [])"
  by pat_completeness auto
termination
  by (relation "measure (\<lambda>(points, img, i). length points - i)") auto

declare print_points.simps [simp del]

text \<open>Lines 206 to 219: the line of a region in the raw output.\<close>

definition print_region :: "flags \<Rightarrow> point2f list \<Rightarrow> mat \<Rightarrow> string \<Rightarrow> token list" where
  "print_region fl points img res =
     (if FLAGS_r fl then
        print_points points img 0
        @ (if tr_is_initialized fl then [TStr '','', TStr res] else [])
        @ [TEndl]
      else [])"

text \<open>
  The body of the loop over the regions: what it prints, and what it adds to
  \<open>num_found\<close>. The annotation of the displayed frame reads \<open>points\<close> at indices below
  its length and at \<open>top_left_point_idx\<close>, which \<open>cropImage\<close> has read before.
\<close>

definition process_region ::
    "env \<Rightarrow> flags \<Rightarrow> string \<Rightarrow> mat \<Rightarrow> rotated_rect \<Rightarrow> error + (token list \<times> int)" where
  "process_region ev fl kAlphabet img rect =
     (case crop_region ev fl img rect of
        Inl e \<Rightarrow> Inl e
      | Inr (cropped_text, points, top_left_point_idx) \<Rightarrow>
     (case recognize_region ev fl kAlphabet cropped_text of
        Inl e \<Rightarrow> Inl e
      | Inr (res, conf) \<Rightarrow>
          Inr (print_region fl points img res,
               if tr_is_initialized fl \<and> res \<noteq> [] then 1 else 0)))"

text \<open>
  \<open>for (const auto &rect : rects)\<close>: the events of the loop and either the exception
  that ended it or the final \<open>num_found\<close>.
\<close>

fun regions_loop ::
    "env \<Rightarrow> flags \<Rightarrow> string \<Rightarrow> mat \<Rightarrow> rotated_rect list \<Rightarrow> int \<Rightarrow> event list \<times> (error + int)" where
  "regions_loop ev fl kAlphabet img [] num_found = ([], Inr num_found)"
| "regions_loop ev fl kAlphabet img (rect # rects) num_found =
     (case process_region ev fl kAlphabet img rect of
        Inl e \<Rightarrow> ([], Inl e)
      | Inr (toks, found) \<Rightarrow>
          (case regions_loop ev fl kAlphabet img rects (num_found + found) of
             (evs, r) \<Rightarrow> (map Cout toks @ evs, r)))"

subsection \<open>One frame\<close>

text \<open>Lines 139 to 148: the regions of a frame.\<close>

definition frame_rects :: "env \<Rightarrow> flags \<Rightarrow> mat \<Rightarrow> rotated_rect list" where
  "frame_rects ev fl img =
     (if td_is_initialized fl then td_postProcess ev img
      else [RotatedRect (Point2f 0 0) (Size2f 0 0) 0])"

definition area :: "env \<Rightarrow> size2f \<Rightarrow> real" where
  "area ev sz = float_mul ev (sf_width sz) (sf_height sz)"

text \<open>Lines 150 to 155: the cap on the number of regions.\<close>

definition cap_rects :: "env \<Rightarrow> flags \<Rightarrow> rotated_rect list \<Rightarrow> rotated_rect list" where
  "cap_rects ev fl rects =
     (if FLAGS_max_rect_num fl \<ge> 0 \<and> int (length rects) > FLAGS_max_rect_num fl then
        take (nat (FLAGS_max_rect_num fl))
          (std_sort ev (\<lambda>a b. area ev (rr_size a) > area ev (rr_size b)) rects)
      else rects)"

definition to_close_message :: string where
  "to_close_message =
     ''To close the application, press 'CTRL+C' or any key with focus on the output window''"

text \<open>
  The body of the \<open>while\<close> loop for one frame and the key \<open>k\<close>: the events and either
  the exception or whether the loop is left by \<open>break\<close>.
\<close>

definition process_frame ::
    "env \<Rightarrow> flags \<Rightarrow> string \<Rightarrow> mat \<Rightarrow> int \<Rightarrow> event list \<times> (error + bool)" where
  "process_frame ev fl kAlphabet img k =
     (let rects = cap_rects ev fl (frame_rects ev fl img);
          num_found = (if tr_is_initialized fl then 0 else int (length rects))
      in case regions_loop ev fl kAlphabet img rects num_found of
           (evs, Inl e) \<Rightarrow> (evs, Inl e)
         | (evs, Inr found) \<Rightarrow>
             if \<not> FLAGS_no_show fl then
               (evs @ [Cout (TStr to_close_message), Cout TEndl, Imshow found],
                Inr (k = 27))
             else (evs, Inr False))"

text \<open>\<open>while (!image.empty())\<close> over what the frame source still holds.\<close>

fun frames_loop ::
    "env \<Rightarrow> flags \<Rightarrow> string \<Rightarrow> (mat \<times> int) list \<Rightarrow> event list \<times> error option" where
  "frames_loop ev fl kAlphabet [] = ([], None)"
| "frames_loop ev fl kAlphabet ((img, k) # frames) =
     (if mat_empty img then ([], None)
      else
        (case process_frame ev fl kAlphabet img k of
           (evs, Inl e) \<Rightarrow> (evs, Some e)
         | (evs, Inr stop) \<Rightarrow>
             if stop then (evs, None)
             else (case frames_loop ev fl kAlphabet frames of
                     (evs', r) \<Rightarrow> (evs @ evs', r))))"

subsection \<open>main\<close>

text \<open>
  How \<open>main\<close> ends: by \<open>return 0\<close> after the usage message, in the \<open>catch\<close> block with
  \<open>EXIT_FAILURE\<close>, by leaving the frame loop, or in a read outside a vector, after
  which nothing is known of the run. The performance report that follows the loop is
  computed from wall-clock measurements and is not modelled.
\<close>

datatype ending = Return_0 | EXIT_FAILURE error | Loop_left | Undefined

text \<open>\<open>ex.what()\<close> for an exception. A read outside a vector is no exception.\<close>

definition what :: "error \<Rightarrow> string" where
  "what e = (case e of logic_error m \<Rightarrow> m | invalid_argument m \<Rightarrow> m
               | runtime_error m \<Rightarrow> m | cv_Exception m \<Rightarrow> m | OutOfBounds \<Rightarrow> [])"

text \<open>
  The end of the \<open>try\<close> block by an error, after the events \<open>evs\<close>: an exception
  reaches the \<open>catch\<close> block, which writes its message to \<open>std::cerr\<close>.
\<close>

definition catch :: "event list \<Rightarrow> error \<Rightarrow> ending \<times> event list" where
  "catch evs e =
     (case e of
        OutOfBounds \<Rightarrow> (Undefined, evs)
      | _ \<Rightarrow> (EXIT_FAILURE e, evs @ [Cerr (what e)]))"

definition pad_symbol_message :: string where
  "pad_symbol_message =
     ''Symbols set for Text Recongition model must not contain reserved symbol ''
     @ [CHR 0x27, CHR ''#'', CHR 0x27]"

definition main :: "env \<Rightarrow> flags \<Rightarrow> ending \<times> event list" where
  "main ev fl =
     (case ParseAndCheckCommandLine fl of
        Inl e \<Rightarrow> catch [] e
      | Inr False \<Rightarrow> (Return_0, [Usage])
      | Inr True \<Rightarrow>
          if kPadSymbol \<in> set (FLAGS_m_tr_ss fl)
          then catch [] (invalid_argument pad_symbol_message)
          else
            (let kAlphabet = FLAGS_m_tr_ss fl @ [kPadSymbol]
             in case frames_loop ev fl kAlphabet (grabber ev) of
                  (evs, Some e) \<Rightarrow> catch evs e
                | (evs, None) \<Rightarrow> (Loop_left, evs)))"

section \<open>Loop invariants of topLeftPoint\<close>

text \<open>The index \<open>k\<close> is the index, below \<open>n\<close>, of an occurrence of \<open>p\<close> in \<open>ps\<close>.\<close>

definition idx_ok :: "point2f list \<Rightarrow> nat \<Rightarrow> int \<Rightarrow> point2f \<Rightarrow> bool" where
  "idx_ok ps n k p = (0 \<le> k \<and> nat k < n \<and> nat k < length ps \<and> ps ! nat k = p)"

text \<open>
  After \<open>n\<close> passes, when all points have \<open>x\<close> below \<open>FLT_MAX\<close>: each candidate is a
  point of the list with its index, except that \<open>almost_most_left\<close> may still hold its
  initial value.
\<close>

definition valid_inv :: "point2f list \<Rightarrow> nat \<Rightarrow> tl_state \<Rightarrow> bool" where
  "valid_inv ps n s =
     (if n = 0 then s = tl_init
      else idx_ok ps n (most_left_idx s) (most_left s)
           \<and> (almost_most_left_idx s = - 1 \<and> almost_most_left s = Point2f FLT_MAX FLT_MAX
              \<or> idx_ok ps n (almost_most_left_idx s) (almost_most_left s)))"

text \<open>
  After \<open>n\<close> passes, when \<open>a\<close> and \<open>b\<close> are the two points that lie left of all
  others: what the candidates are, by which of \<open>a\<close> and \<open>b\<close> the loop has met.
\<close>

definition two_inv :: "point2f \<Rightarrow> point2f \<Rightarrow> point2f list \<Rightarrow> nat \<Rightarrow> tl_state \<Rightarrow> bool" where
  "two_inv a b ps n s =
     (let seen_a = a \<in> set (take n ps);
          seen_b = b \<in> set (take n ps);
          ml = most_left s;
          al = almost_most_left s
      in if seen_a \<and> seen_b then
           idx_ok ps n (most_left_idx s) ml \<and> idx_ok ps n (almost_most_left_idx s) al
           \<and> (ml = a \<and> al = b \<and> pt_x a \<le> pt_x b \<or> ml = b \<and> al = a \<and> pt_x b \<le> pt_x a)
         else if seen_a then
           idx_ok ps n (most_left_idx s) ml \<and> ml = a \<and> pt_x b < pt_x al
         else if seen_b then
           idx_ok ps n (most_left_idx s) ml \<and> ml = b \<and> pt_x a < pt_x al
         else pt_x a < pt_x ml \<and> pt_x b < pt_x ml \<and> pt_x a < pt_x al \<and> pt_x b < pt_x al)"

section \<open>Kinds of output\<close>

text \<open>
  The events of a run that are not part of the line of a region: the notice and the end
  of its line, the display of a frame, and the error message.
\<close>

definition display_event :: "event \<Rightarrow> bool" where
  "display_event e =
     (case e of Cout t \<Rightarrow> t = TStr to_close_message \<or> t = TEndl
              | Imshow n \<Rightarrow> True
              | Cerr m \<Rightarrow> True
              | Usage \<Rightarrow> False)"

text \<open>
  The events of a frame in which no region is processed and nothing is recognised: its
  display, unless \<open>FLAGS_no_show\<close> is set.
\<close>

definition frame_display :: "flags \<Rightarrow> event list" where
  "frame_display fl =
     (if FLAGS_no_show fl then []
      else [Cout (TStr to_close_message), Cout TEndl, Imshow 0])"

text \<open>
  A frame that is processed, has no region after the cap, and does not end the loop by
  the key 27.
\<close>

definition quiet_frame :: "env \<Rightarrow> flags \<Rightarrow> mat \<times> int \<Rightarrow> bool" where
  "quiet_frame ev fl f =
     (case f of
        (img, k) \<Rightarrow>
          \<not> mat_empty img \<and> cap_rects ev fl (frame_rects ev fl img) = []
          \<and> (FLAGS_no_show fl \<or> k \<noteq> 27))"

section \<open>The format of a line of raw output\<close>

text \<open>The tokens \<open>ts\<close> with a comma between each two of them.\<close>

fun comma_separated :: "token list \<Rightarrow> token list" where
  "comma_separated [] = []"
| "comma_separated [t] = [t]"
| "comma_separated (t # u # ts) = t # TStr '','' # comma_separated (u # ts)"

text \<open>The two clamped integer coordinates of a point, for a frame \<open>img\<close>.\<close>

definition clamped_coordinates :: "mat \<Rightarrow> point2f \<Rightarrow> token list" where
  "clamped_coordinates img p =
     [TInt (min (max (static_cast_int (pt_x p)) 0) (cols img - 1)),
      TInt (min (max (static_cast_int (pt_y p)) 0) (rows img - 1))]"

section \<open>Example data\<close>

text \<open>A frame of 100 by 50 pixels and the corners of a slanted rectangle in it.\<close>

definition frame1 :: mat where
  "frame1 = \<lparr> cols = 100, rows = 50, pixels = 1 \<rparr>"

definition slanted :: "point2f list" where
  "slanted = [Point2f 42 31, Point2f 40 21, Point2f 60 17, Point2f 62 27]"

text \<open>A square of side 50, turned: its leftmost corner is not its upper left corner.\<close>

definition tilted :: "point2f list" where
  "tilted = [Point2f 0 50, Point2f 30 10, Point2f 70 40, Point2f 40 80]"

text \<open>A second frame, in which the example detector finds nothing.\<close>

definition frame0 :: mat where
  "frame0 = \<lparr> cols = 100, rows = 50, pixels = 0 \<rparr>"

definition word_rect :: rotated_rect where
  "word_rect = RotatedRect (Point2f 51 24) (Size2f 20 10) (- 11)"

definition small_rect :: rotated_rect where
  "small_rect = RotatedRect (Point2f 10 10) (Size2f 4 2) 0"

definition large_rect :: rotated_rect where
  "large_rect = RotatedRect (Point2f 70 30) (Size2f 30 12) 0"

text \<open>A sort by insertion, as one \<open>std::sort\<close> that a run may meet.\<close>

fun insert_before :: "('a \<Rightarrow> 'a \<Rightarrow> bool) \<Rightarrow> 'a \<Rightarrow> 'a list \<Rightarrow> 'a list" where
  "insert_before cmp x [] = [x]"
| "insert_before cmp x (y # ys) =
     (if cmp x y then x # y # ys else y # insert_before cmp x ys)"

definition example_sort :: "('a \<Rightarrow> 'a \<Rightarrow> bool) \<Rightarrow> 'a list \<Rightarrow> 'a list" where
  "example_sort cmp xs = foldr (insert_before cmp) xs []"

text \<open>
  Collaborators for the examples: two frames, a detector that finds no region in the
  first and one word in the second, a recognizer of 37 classes and a decoder that reads
  \<open>abc\<close> with confidence one half.
\<close>

definition env1 :: env where
  "env1 = \<lparr> grabber = [(frame0, 0), (frame1, 0)],
            td_postProcess = (\<lambda>img. if pixels img = 0 then [] else [word_rect]),
            rect_points =
              (\<lambda>rect. (Point2f 42 31, Point2f 40 21, Point2f 60 17, Point2f 62 27)),
            float_mul = (\<lambda>v w. v * w),
            std_sort = example_sort,
            tr_input_size = Size 120 32,
            tr_Infer = (\<lambda>c. ([30, 1, 37], [])),
            CTCGreedyDecoder = (\<lambda>output_data alphabet pad conf. (''abc'', 1 / 2)),
            roi_what = ''Assertion failed'' \<rparr>"

text \<open>The same with a recognizer of 38 classes.\<close>

definition env2 :: env where
  "env2 = env1 \<lparr> tr_Infer := (\<lambda>c. ([30, 1, 38], [])) \<rparr>"

definition flags1 :: flags where
  "flags1 = \<lparr> FLAGS_h = False, FLAGS_i = ''video.mp4'', FLAGS_m_td = ''td.xml'',
              FLAGS_m_tr = ''tr.xml'',
              FLAGS_m_tr_ss = ''0123456789abcdefghijklmnopqrstuvwxyz'',
              FLAGS_thr = 1 / 2, FLAGS_max_rect_num = - 1, FLAGS_cc = False,
              FLAGS_r = True, FLAGS_no_show = False \<rparr>"

section \<open>Properties of topLeftPoint\<close>

lemma tl_loop_invariant:
  assumes "I i s" and "i \<le> length ps"
    and step: "\<And>j t. j < length ps \<Longrightarrow> I j t \<Longrightarrow> I (Suc j) (tl_body ps j t)"
  shows "I (length ps) (tl_loop ps i s)"
  using assms(1,2)
proof (induction "length ps - i" arbitrary: i s)
  case 0
  then have "i = length ps" by simp
  with "0.prems" show ?case by (simp add: tl_loop.simps [of ps "length ps"])
next
  case (Suc d)
  then have lt: "i < length ps" by simp
  then have "I (Suc i) (tl_body ps i s)" using Suc.prems step by blast
  moreover have "d = length ps - Suc i" using Suc.hyps(2) by simp
  ultimately have "I (length ps) (tl_loop ps (Suc i) (tl_body ps i s))"
    using Suc.hyps(1) lt by simp
  then show ?case using lt by (simp add: tl_loop.simps [of ps i])
qed

lemma two_inv_init:
  assumes "pt_x a < FLT_MAX" and "pt_x b < FLT_MAX"
  shows "two_inv a b ps 0 tl_init"
  using assms by (simp add: two_inv_def tl_init_def)

lemma two_inv_step:
  assumes ab: "a \<noteq> b" and xa: "pt_x a < FLT_MAX" and xb: "pt_x b < FLT_MAX"
    and others: "\<forall>q\<in>set ps. q \<noteq> a \<and> q \<noteq> b \<longrightarrow> pt_x a < pt_x q \<and> pt_x b < pt_x q"
    and n: "n < length ps" and inv: "two_inv a b ps n s"
  shows "two_inv a b ps (Suc n) (tl_body ps n s)"
proof -
  have mem: "ps ! n \<in> set ps" using n by simp
  have tk: "set (take (Suc n) ps) = insert (ps ! n) (set (take n ps))"
    using n by (simp add: take_Suc_conv_app_nth)
  consider (is_a) "ps ! n = a" | (is_b) "ps ! n = b" | (other) "ps ! n \<noteq> a" "ps ! n \<noteq> b"
    by blast
  then show ?thesis
  proof cases
    case is_a
    then show ?thesis
      using inv ab xa xb n
      unfolding two_inv_def tl_body_def Let_def tk idx_ok_def
      by (auto split: if_splits)
  next
    case is_b
    then show ?thesis
      using inv ab xa xb n
      unfolding two_inv_def tl_body_def Let_def tk idx_ok_def
      by (auto split: if_splits)
  next
    case other
    then have "pt_x a < pt_x (ps ! n)" "pt_x b < pt_x (ps ! n)"
      using others mem by blast+
    then show ?thesis
      using inv ab xa xb n other
      unfolding two_inv_def tl_body_def Let_def tk idx_ok_def
      by (auto split: if_splits)
  qed
qed


lemma two_inv_final:
  assumes ab: "a \<noteq> b" and xa: "pt_x a < FLT_MAX" and xb: "pt_x b < FLT_MAX"
    and a_in: "a \<in> set ps" and b_in: "b \<in> set ps"
    and others: "\<forall>q\<in>set ps. q \<noteq> a \<and> q \<noteq> b \<longrightarrow> pt_x a < pt_x q \<and> pt_x b < pt_x q"
  shows "two_inv a b ps (length ps) (tl_loop ps 0 tl_init)"
proof (rule tl_loop_invariant)
  show "two_inv a b ps 0 tl_init" using xa xb by (rule two_inv_init)
  show "0 \<le> length ps" by simp
  fix j t
  assume "j < length ps" and "two_inv a b ps j t"
  then show "two_inv a b ps (Suc j) (tl_body ps j t)"
    using two_inv_step [OF ab xa xb others] by blast
qed

lemma idx_okD: "idx_ok ps n k p \<Longrightarrow> 0 \<le> k \<and> k < int (length ps) \<and> ps ! nat k = p"
  by (auto simp: idx_ok_def)

lemma topLeftPoint_two_leftmost:
  assumes ab: "a \<noteq> b" and xa: "pt_x a < FLT_MAX" and xb: "pt_x b < FLT_MAX"
    and a_in: "a \<in> set ps" and b_in: "b \<in> set ps"
    and others: "\<forall>q\<in>set ps. q \<noteq> a \<and> q \<noteq> b \<longrightarrow> pt_x a < pt_x q \<and> pt_x b < pt_x q"
  shows "fst (topLeftPoint ps) =
           (if pt_y a < pt_y b \<or> (pt_y a = pt_y b \<and> pt_x a \<le> pt_x b) then a else b)
         \<and> 0 \<le> snd (topLeftPoint ps) \<and> snd (topLeftPoint ps) < int (length ps)
         \<and> ps ! nat (snd (topLeftPoint ps)) = fst (topLeftPoint ps)"
proof -
  define s where "s = tl_loop ps 0 tl_init"
  have "two_inv a b ps (length ps) s"
    unfolding s_def using assms by (rule two_inv_final)
  then have ml: "idx_ok ps (length ps) (most_left_idx s) (most_left s)"
    and al: "idx_ok ps (length ps) (almost_most_left_idx s) (almost_most_left s)"
    and ord: "most_left s = a \<and> almost_most_left s = b \<and> pt_x a \<le> pt_x b
            \<or> most_left s = b \<and> almost_most_left s = a \<and> pt_x b \<le> pt_x a"
    using a_in b_in by (simp_all add: two_inv_def Let_def)
  have ne: "pt_x a = pt_x b \<Longrightarrow> pt_y a \<noteq> pt_y b"
    using ab by (cases a; cases b) auto
  have tp: "topLeftPoint ps = (most_left (tl_final s), most_left_idx (tl_final s))"
    by (simp add: topLeftPoint_def s_def Let_def)
  show ?thesis
  proof (cases "pt_y (almost_most_left s) < pt_y (most_left s)")
    case True
    then have fin: "most_left (tl_final s) = almost_most_left s"
      "most_left_idx (tl_final s) = almost_most_left_idx s"
      by (simp_all add: tl_final_def)
    have "almost_most_left s =
           (if pt_y a < pt_y b \<or> (pt_y a = pt_y b \<and> pt_x a \<le> pt_x b) then a else b)"
      using ord True ne by auto
    then show ?thesis using idx_okD [OF al] by (simp add: tp fin)
  next
    case False
    then have fin: "tl_final s = s" by (simp add: tl_final_def)
    have "most_left s =
           (if pt_y a < pt_y b \<or> (pt_y a = pt_y b \<and> pt_x a \<le> pt_x b) then a else b)"
      using ord False ne by auto
    then show ?thesis using idx_okD [OF ml] by (simp add: tp fin)
  qed
qed

text \<open>
  Claim C1, as stated, fails. The corners of the turned square have pairwise distinct
  \<open>x\<close>, 30 apart at least; the corner of smallest \<open>x\<close> is \<open>(0, 50)\<close>, and
  \<open>topLeftPoint\<close> selects \<open>(30, 10)\<close>, the corner of second smallest \<open>x\<close>, because its
  \<open>y\<close> is smaller.
\<close>

theorem topLeftPoint_not_leftmost:
  "topLeftPoint [Point2f 0 50, Point2f 30 10, Point2f 70 40, Point2f 40 80] = (Point2f 30 10, 1)"
  by code_simp

text \<open>
  Claim C8, as stated, fails. For the square on a corner the second and third smallest
  \<open>x\<close> are equal, and the selected corner depends on where the list starts.
\<close>

theorem topLeftPoint_rotation_changes_point:
  "fst (topLeftPoint [Point2f 0 5, Point2f 5 0, Point2f 10 5, Point2f 5 10]) = Point2f 5 0
   \<and> rotate 3 [Point2f 0 5, Point2f 5 0, Point2f 10 5, Point2f 5 10]
       = [Point2f 5 10, Point2f 0 5, Point2f 5 0, Point2f 10 5]
   \<and> fst (topLeftPoint (rotate 3 [Point2f 0 5, Point2f 5 0, Point2f 10 5, Point2f 5 10]))
       = Point2f 0 5"
  by code_simp

lemma two_leftmost_of_distinct:
  assumes "distinct (map pt_x ps)" and "a \<in> set ps" and "b \<in> set ps" and "a \<noteq> b"
    and "\<forall>q\<in>set ps. pt_x a \<le> pt_x q"
    and "\<forall>q\<in>set ps. q \<noteq> a \<longrightarrow> pt_x b \<le> pt_x q"
  shows "\<forall>q\<in>set ps. q \<noteq> a \<and> q \<noteq> b \<longrightarrow> pt_x a < pt_x q \<and> pt_x b < pt_x q"
proof -
  have inj: "inj_on pt_x (set ps)" using assms(1) by (simp add: distinct_map)
  show ?thesis
  proof (intro ballI impI)
    fix q
    assume q: "q \<in> set ps" and ne: "q \<noteq> a \<and> q \<noteq> b"
    have "pt_x q \<noteq> pt_x a" "pt_x q \<noteq> pt_x b"
      using inj q ne assms(2,3) by (auto dest: inj_onD)
    moreover have "pt_x a \<le> pt_x q" "pt_x b \<le> pt_x q"
      using assms(5,6) q ne by blast+
    ultimately show "pt_x a < pt_x q \<and> pt_x b < pt_x q" by simp
  qed
qed

text \<open>
  Claim C1, amended. The comparison by \<open>y\<close> is made in every call: no tie or near tie
  of the \<open>x\<close>-coordinates is asked for. For a list of four points in which two
  different points \<open>a\<close> and \<open>b\<close> lie strictly left of all others (as the two points of
  smallest \<open>x\<close> do when the \<open>x\<close>-coordinates are pairwise distinct), the selected
  anchor is the one of \<open>a\<close> and \<open>b\<close> with the smaller \<open>y\<close>, and on equal \<open>y\<close> the one
  with the smaller \<open>x\<close>. In particular the point \<open>a\<close> of strictly smallest \<open>x\<close> is
  selected exactly when its \<open>y\<close> is not above the \<open>y\<close> of \<open>b\<close>. The index written to
  \<open>*idx\<close> is the index of the selected point.
\<close>

theorem topLeftPoint_leftmost_pair:
  assumes "length ps = 4"
    and "a \<in> set ps" and "b \<in> set ps" and "a \<noteq> b"
    and "pt_x a < FLT_MAX" and "pt_x b < FLT_MAX"
    and "\<forall>q\<in>set ps. q \<noteq> a \<and> q \<noteq> b \<longrightarrow> pt_x a < pt_x q \<and> pt_x b < pt_x q"
  shows "fst (topLeftPoint ps) =
           (if pt_y a < pt_y b \<or> (pt_y a = pt_y b \<and> pt_x a \<le> pt_x b) then a else b)
       \<and> (pt_x a < pt_x b \<longrightarrow> (fst (topLeftPoint ps) = a \<longleftrightarrow> pt_y a \<le> pt_y b))
       \<and> ps ! nat (snd (topLeftPoint ps)) = fst (topLeftPoint ps)"
proof -
  note main = topLeftPoint_two_leftmost [OF assms(4,5,6,2,3,7)]
  have "fst (topLeftPoint ps) = a \<longleftrightarrow> pt_y a \<le> pt_y b" if "pt_x a < pt_x b"
    using main that assms(4) by (auto split: if_splits)
  then show ?thesis using main by blast
qed

theorem topLeftPoint_leftmost_pair_witness:
  "length tilted = 4 \<and> Point2f 0 50 \<in> set tilted \<and> Point2f 30 10 \<in> set tilted
   \<and> fst (topLeftPoint tilted) = Point2f 30 10
   \<and> tilted ! nat (snd (topLeftPoint tilted)) = Point2f 30 10"
proof -
  have others: "\<forall>q\<in>set tilted. q \<noteq> Point2f 0 50 \<and> q \<noteq> Point2f 30 10 \<longrightarrow>
      pt_x (Point2f 0 50) < pt_x q \<and> pt_x (Point2f 30 10) < pt_x q"
    by (simp add: tilted_def)
  have len: "length tilted = 4" and a: "Point2f 0 50 \<in> set tilted"
    and b: "Point2f 30 10 \<in> set tilted"
    by (simp_all add: tilted_def)
  have ne: "Point2f 0 50 \<noteq> Point2f 30 10" by simp
  have xa: "pt_x (Point2f 0 50) < FLT_MAX" and xb: "pt_x (Point2f 30 10) < FLT_MAX"
    by (simp_all add: FLT_MAX_def)
  show ?thesis
    using topLeftPoint_leftmost_pair [OF len a b ne xa xb others] len a b by simp
qed

text \<open>
  Claim C8, amended. For a list of four corner points in which two different points lie
  strictly left of all others, every cyclic rotation of the list yields the same
  selected point, by coordinates.
\<close>

theorem topLeftPoint_rotate:
  assumes "length ps = 4"
    and "a \<in> set ps" and "b \<in> set ps" and "a \<noteq> b"
    and "pt_x a < FLT_MAX" and "pt_x b < FLT_MAX"
    and "\<forall>q\<in>set ps. q \<noteq> a \<and> q \<noteq> b \<longrightarrow> pt_x a < pt_x q \<and> pt_x b < pt_x q"
  shows "fst (topLeftPoint (rotate n ps)) = fst (topLeftPoint ps)"
proof -
  have s: "set (rotate n ps) = set ps" by simp
  have "fst (topLeftPoint (rotate n ps)) =
           (if pt_y a < pt_y b \<or> (pt_y a = pt_y b \<and> pt_x a \<le> pt_x b) then a else b)"
    using topLeftPoint_two_leftmost [of a b "rotate n ps"] assms unfolding s by blast
  moreover have "fst (topLeftPoint ps) =
           (if pt_y a < pt_y b \<or> (pt_y a = pt_y b \<and> pt_x a \<le> pt_x b) then a else b)"
    using topLeftPoint_two_leftmost [of a b ps] assms by blast
  ultimately show ?thesis by simp
qed

theorem topLeftPoint_rotate_witness:
  "length slanted = 4 \<and> Point2f 40 21 \<in> set slanted \<and> Point2f 42 31 \<in> set slanted
   \<and> rotate 1 slanted = [Point2f 40 21, Point2f 60 17, Point2f 62 27, Point2f 42 31]
   \<and> fst (topLeftPoint [Point2f 40 21, Point2f 60 17, Point2f 62 27, Point2f 42 31])
       = fst (topLeftPoint slanted)"
proof -
  have others: "\<forall>q\<in>set slanted. q \<noteq> Point2f 40 21 \<and> q \<noteq> Point2f 42 31 \<longrightarrow>
      pt_x (Point2f 40 21) < pt_x q \<and> pt_x (Point2f 42 31) < pt_x q"
    by (simp add: slanted_def)
  have len: "length slanted = 4" and a: "Point2f 40 21 \<in> set slanted"
    and b: "Point2f 42 31 \<in> set slanted"
    by (simp_all add: slanted_def)
  have ne: "Point2f 40 21 \<noteq> Point2f 42 31" by simp
  have xa: "pt_x (Point2f 40 21) < FLT_MAX" and xb: "pt_x (Point2f 42 31) < FLT_MAX"
    by (simp_all add: FLT_MAX_def)
  have r: "rotate 1 slanted = [Point2f 40 21, Point2f 60 17, Point2f 62 27, Point2f 42 31]"
    by (simp add: slanted_def)
  show ?thesis
    using topLeftPoint_rotate [OF len a b ne xa xb others, of 1] len a b r by simp
qed

section \<open>Properties of cropImage\<close>

lemma float_of_int_exact: "\<bar>n\<bar> < 2 ^ 24 \<Longrightarrow> float_of_int n = real_of_int n"
proof -
  assume a: "\<bar>n\<bar> < 2 ^ 24"
  have "nat \<bar>n\<bar> < 2 ^ 24" using a by (simp add: nat_less_iff)
  then have "floorlog 2 (nat \<bar>n\<bar>) \<le> 24"
    by (simp add: floorlog_le_iff)
  then have k: "floorlog 2 (nat \<bar>n\<bar>) - 24 = 0" by simp
  have "real_of_int (sgn n) * real (nat \<bar>n\<bar>) = real_of_int n"
    by (cases "n < 0") (auto simp: sgn_if)
  then show ?thesis
    by (simp add: float_of_int_def Let_def k)
qed

text \<open>
  Claim C5. For a list of four corners and an anchor index \<open>i\<close> from 0 to 3,
  \<open>cropImage\<close> asks for the affine transform of exactly three source points, the
  corners at \<open>i\<close>, \<open>(i + 1) mod 4\<close> and \<open>(i + 2) mod 4\<close>, onto \<open>(0, 0)\<close>,
  \<open>(w - 1, 0)\<close> and \<open>(w - 1, h - 1)\<close> for the target size \<open>w\<close> by \<open>h\<close> (the two
  integers converted to float, which changes no integer below \<open>2 ^ 24\<close>). The corner at
  \<open>(i + 3) mod 4\<close> takes no part: replacing it by any point leaves the result as it is.
\<close>

theorem cropImage_three_points:
  assumes "length points = 4" and "0 \<le> i" and "i < 4"
  shows "cropImage img points (Size w h) i =
           Inr (warpAffine img
                 (getAffineTransform
                    [points ! nat i, points ! nat ((i + 1) mod 4), points ! nat ((i + 2) mod 4)]
                    [Point2f 0 0, Point2f (float_of_int (w - 1)) 0,
                     Point2f (float_of_int (w - 1)) (float_of_int (h - 1))])
                 (Size w h))
       \<and> cropImage img (points[nat ((i + 3) mod 4) := q]) (Size w h) i =
           cropImage img points (Size w h) i
       \<and> (\<bar>w - 1\<bar> < 2 ^ 24 \<longrightarrow> float_of_int (w - 1) = real_of_int (w - 1))
       \<and> (\<bar>h - 1\<bar> < 2 ^ 24 \<longrightarrow> float_of_int (h - 1) = real_of_int (h - 1))"
proof -
  from assms consider "i = 0" | "i = 1" | "i = 2" | "i = 3" by linarith
  then have idx: "cropImage img points (Size w h) i =
           Inr (warpAffine img
                 (getAffineTransform
                    [points ! nat i, points ! nat ((i + 1) mod 4), points ! nat ((i + 2) mod 4)]
                    [Point2f 0 0, Point2f (float_of_int (w - 1)) 0,
                     Point2f (float_of_int (w - 1)) (float_of_int (h - 1))])
                 (Size w h))
       \<and> cropImage img (points[nat ((i + 3) mod 4) := q]) (Size w h) i =
           cropImage img points (Size w h) i"
    using assms(1)
    by cases (simp_all add: cropImage_def at_idx_def signed_modulo_int_def)
  show ?thesis using idx float_of_int_exact by blast
qed

theorem cropImage_three_points_witness:
  "length slanted = 4 \<and> (0::int) \<le> 1 \<and> (1::int) < 4
   \<and> cropImage frame1 slanted (Size 120 32) 1 =
       Inr (warpAffine frame1
             (getAffineTransform
                [Point2f 40 21, Point2f 60 17, Point2f 62 27]
                [Point2f 0 0, Point2f 119 0, Point2f 119 31])
             (Size 120 32))
   \<and> cropImage frame1 (slanted[0 := Point2f 7 7]) (Size 120 32) 1 =
       cropImage frame1 slanted (Size 120 32) 1"
  using cropImage_three_points [of slanted 1 frame1 120 32 "Point2f 7 7"]
  by (simp add: slanted_def)

section \<open>The index of topLeftPoint in cropImage\<close>

lemma idx_ok_mem: "idx_ok ps n k p \<Longrightarrow> p \<in> set ps"
  unfolding idx_ok_def using nth_mem by blast

lemma valid_inv_step:
  assumes fin: "\<forall>p\<in>set ps. pt_x p < FLT_MAX"
    and n: "n < length ps" and inv: "valid_inv ps n s"
  shows "valid_inv ps (Suc n) (tl_body ps n s)"
proof -
  have x: "pt_x (ps ! n) < FLT_MAX" using fin n by simp
  show ?thesis
  proof (cases "n = 0")
    case True
    then have "s = tl_init" using inv by (simp add: valid_inv_def)
    then show ?thesis
      using x n True by (simp add: valid_inv_def tl_body_def tl_init_def idx_ok_def Let_def)
  next
    case False
    then have ml: "idx_ok ps n (most_left_idx s) (most_left s)"
      using inv by (simp add: valid_inv_def)
    then have "pt_x (most_left s) < FLT_MAX"
      using fin idx_ok_mem by blast
    then show ?thesis
      using inv n False
      unfolding valid_inv_def tl_body_def Let_def idx_ok_def
      by (auto split: if_splits)
  qed
qed

lemma valid_inv_final:
  assumes fin: "\<forall>p\<in>set ps. pt_x p < FLT_MAX"
  shows "valid_inv ps (length ps) (tl_loop ps 0 tl_init)"
proof (rule tl_loop_invariant)
  show "valid_inv ps 0 tl_init" by (simp add: valid_inv_def)
  show "0 \<le> length ps" by simp
  fix j t
  assume "j < length ps" and "valid_inv ps j t"
  then show "valid_inv ps (Suc j) (tl_body ps j t)"
    using valid_inv_step [OF fin] by blast
qed

lemma topLeftPoint_valid:
  assumes ne: "ps \<noteq> []"
    and fin: "\<forall>p\<in>set ps. pt_x p < FLT_MAX \<and> pt_y p < FLT_MAX"
  shows "idx_ok ps (length ps) (snd (topLeftPoint ps)) (fst (topLeftPoint ps))"
proof -
  define s where "s = tl_loop ps 0 tl_init"
  have "valid_inv ps (length ps) s"
    unfolding s_def using fin by (intro valid_inv_final) blast
  then have ml: "idx_ok ps (length ps) (most_left_idx s) (most_left s)"
    and al: "almost_most_left_idx s = - 1 \<and> almost_most_left s = Point2f FLT_MAX FLT_MAX
              \<or> idx_ok ps (length ps) (almost_most_left_idx s) (almost_most_left s)"
    using ne by (simp_all add: valid_inv_def)
  have "pt_y (most_left s) < FLT_MAX"
    using fin idx_ok_mem [OF ml] by blast
  then have sw: "pt_y (almost_most_left s) < pt_y (most_left s) \<Longrightarrow>
      idx_ok ps (length ps) (almost_most_left_idx s) (almost_most_left s)"
    using al by auto
  have tp: "topLeftPoint ps = (most_left (tl_final s), most_left_idx (tl_final s))"
    by (simp add: topLeftPoint_def s_def Let_def)
  show ?thesis
    using ml sw by (simp add: tp tl_final_def)
qed

text \<open>
  Claim C10. For a non-empty list of points whose coordinates are all below \<open>FLT_MAX\<close>,
  the index that \<open>topLeftPoint\<close> writes to \<open>*idx\<close> is at least 0 and below the length
  of the list, so it is not the initial \<open>- 1\<close>; and for a list of four points the three
  reads of \<open>cropImage\<close>, at that index and at its two successors modulo 4, are inside
  the list, so that \<open>cropImage\<close> returns its crop.
\<close>

theorem topLeftPoint_index_in_bounds:
  assumes "points \<noteq> []"
    and "\<forall>p\<in>set points. pt_x p < FLT_MAX \<and> pt_y p < FLT_MAX"
  shows "0 \<le> snd (topLeftPoint points)
       \<and> snd (topLeftPoint points) < int (length points)
       \<and> snd (topLeftPoint points) \<noteq> - 1
       \<and> (length points = 4 \<longrightarrow>
            (\<exists>point0 point1 point2.
               at_idx points (snd (topLeftPoint points)) = Inr point0
             \<and> at_idx points ((snd (topLeftPoint points) + 1) smod 4) = Inr point1
             \<and> at_idx points ((snd (topLeftPoint points) + 2) smod 4) = Inr point2
             \<and> cropImage img points target_size (snd (topLeftPoint points)) =
                 Inr (warpAffine img
                       (getAffineTransform [point0, point1, point2]
                          [Point2f 0 0,
                           Point2f (float_of_int (sz_width target_size - 1)) 0,
                           Point2f (float_of_int (sz_width target_size - 1))
                                   (float_of_int (sz_height target_size - 1))])
                       target_size)))"
proof -
  define i where "i = snd (topLeftPoint points)"
  have rng: "0 \<le> i \<and> i < int (length points)"
    unfolding i_def using idx_okD [OF topLeftPoint_valid [OF assms]] by simp
  have crop: "\<exists>point0 point1 point2.
               at_idx points i = Inr point0
             \<and> at_idx points ((i + 1) smod 4) = Inr point1
             \<and> at_idx points ((i + 2) smod 4) = Inr point2
             \<and> cropImage img points target_size i =
                 Inr (warpAffine img
                       (getAffineTransform [point0, point1, point2]
                          [Point2f 0 0,
                           Point2f (float_of_int (sz_width target_size - 1)) 0,
                           Point2f (float_of_int (sz_width target_size - 1))
                                   (float_of_int (sz_height target_size - 1))])
                       target_size)" if len: "length points = 4"
  proof -
    from rng len consider "i = 0" | "i = 1" | "i = 2" | "i = 3" by force
    then show ?thesis
      using len by cases (simp_all add: cropImage_def at_idx_def signed_modulo_int_def)
  qed
  show ?thesis using rng crop unfolding i_def [symmetric] by auto
qed

theorem topLeftPoint_index_in_bounds_witness:
  "slanted \<noteq> [] \<and> length slanted = 4
   \<and> snd (topLeftPoint slanted) = 1
   \<and> cropImage frame1 slanted (Size 120 32) (snd (topLeftPoint slanted)) =
       Inr (warpAffine frame1
             (getAffineTransform
                [Point2f 40 21, Point2f 60 17, Point2f 62 27]
                [Point2f 0 0, Point2f 119 0, Point2f 119 31])
             (Size 120 32))"
proof -
  have ne: "slanted \<noteq> []" and len: "length slanted = 4" by (simp_all add: slanted_def)
  have fin: "\<forall>p\<in>set slanted. pt_x p < FLT_MAX \<and> pt_y p < FLT_MAX"
    by (simp add: slanted_def FLT_MAX_def)
  have i: "snd (topLeftPoint slanted) = 1" unfolding slanted_def by code_simp
  have f: "float_of_int 119 = 119" "float_of_int 31 = 31"
    using float_of_int_exact [of 119] float_of_int_exact [of 31] by simp_all
  show ?thesis
    using topLeftPoint_index_in_bounds [OF ne fin, of frame1 "Size 120 32"] ne len i f
    by (simp add: at_idx_def slanted_def signed_modulo_int_def)
qed

section \<open>Properties of main\<close>

text \<open>
  Claim C3. Once the command line is accepted, an alphabet string that contains the pad
  symbol \<open>#\<close> ends \<open>main\<close> with the \<open>invalid_argument\<close> error and nothing but its
  message in the trace, whatever the frame source holds: no frame is read. Unless the
  usage message is asked for, such a string always ends \<open>main\<close> in the \<open>catch\<close> block
  before any frame. For an alphabet string without \<open>#\<close> the alphabet in use is the
  string with \<open>#\<close> appended, and \<open>main\<close> goes on to the frame loop with it.
\<close>

theorem pad_symbol_in_alphabet:
  "(ParseAndCheckCommandLine fl = Inr True \<and> kPadSymbol \<in> set (FLAGS_m_tr_ss fl) \<longrightarrow>
      main ev fl = (EXIT_FAILURE (invalid_argument pad_symbol_message),
                    [Cerr pad_symbol_message]))
   \<and> (\<not> FLAGS_h fl \<and> kPadSymbol \<in> set (FLAGS_m_tr_ss fl) \<longrightarrow>
        (\<exists>e. main ev fl = (EXIT_FAILURE e, [Cerr (what e)])))
   \<and> (ParseAndCheckCommandLine fl = Inr True \<and> kPadSymbol \<notin> set (FLAGS_m_tr_ss fl) \<longrightarrow>
        main ev fl =
          (case frames_loop ev fl (FLAGS_m_tr_ss fl @ ''#'') (grabber ev) of
             (evs, Some e) \<Rightarrow> catch evs e
           | (evs, None) \<Rightarrow> (Loop_left, evs)))"
proof (intro conjI impI)
  assume "ParseAndCheckCommandLine fl = Inr True \<and> kPadSymbol \<in> set (FLAGS_m_tr_ss fl)"
  then show "main ev fl = (EXIT_FAILURE (invalid_argument pad_symbol_message),
                    [Cerr pad_symbol_message])"
    by (simp add: main_def catch_def what_def)
next
  assume h: "\<not> FLAGS_h fl \<and> kPadSymbol \<in> set (FLAGS_m_tr_ss fl)"
  then have "(\<exists>m. ParseAndCheckCommandLine fl = Inl (logic_error m))
      \<or> ParseAndCheckCommandLine fl = Inr True"
    by (simp add: ParseAndCheckCommandLine_def)
  then consider (bad) m where "ParseAndCheckCommandLine fl = Inl (logic_error m)"
    | (good) "ParseAndCheckCommandLine fl = Inr True"
    by blast
  then show "\<exists>e. main ev fl = (EXIT_FAILURE e, [Cerr (what e)])"
  proof cases
    case bad
    then show ?thesis by (simp add: main_def catch_def)
  next
    case good
    then show ?thesis using h by (simp add: main_def catch_def)
  qed
next
  assume "ParseAndCheckCommandLine fl = Inr True \<and> kPadSymbol \<notin> set (FLAGS_m_tr_ss fl)"
  then show "main ev fl =
          (case frames_loop ev fl (FLAGS_m_tr_ss fl @ ''#'') (grabber ev) of
             (evs, Some e) \<Rightarrow> catch evs e
           | (evs, None) \<Rightarrow> (Loop_left, evs))"
    by (simp add: main_def kPadSymbol_def)
qed

lemma parse_flags1: "ParseAndCheckCommandLine (flags1\<lparr> FLAGS_m_tr_ss := ss \<rparr>) = Inr True"
  by (simp add: ParseAndCheckCommandLine_def flags1_def)

theorem pad_symbol_in_alphabet_witness:
  "ParseAndCheckCommandLine (flags1\<lparr> FLAGS_m_tr_ss := ''ab#c'' \<rparr>) = Inr True
   \<and> kPadSymbol \<in> set ''ab#c''
   \<and> main env1 (flags1\<lparr> FLAGS_m_tr_ss := ''ab#c'' \<rparr>) =
       (EXIT_FAILURE (invalid_argument pad_symbol_message), [Cerr pad_symbol_message])
   \<and> ParseAndCheckCommandLine (flags1\<lparr> FLAGS_m_tr_ss := ''abc'' \<rparr>) = Inr True
   \<and> kPadSymbol \<notin> set ''abc''
   \<and> main (env1\<lparr> grabber := [] \<rparr>) (flags1\<lparr> FLAGS_m_tr_ss := ''abc'' \<rparr>) = (Loop_left, [])"
  using pad_symbol_in_alphabet [of "flags1\<lparr> FLAGS_m_tr_ss := ''ab#c'' \<rparr>" env1]
        pad_symbol_in_alphabet [of "flags1\<lparr> FLAGS_m_tr_ss := ''abc'' \<rparr>" "env1\<lparr> grabber := [] \<rparr>"]
        parse_flags1 [of "''ab#c''"] parse_flags1 [of "''abc''"]
  by (simp add: kPadSymbol_def)

text \<open>
  Claim C4. When the decoder gives the string \<open>s\<close> with confidence \<open>c\<close> and the
  configured minimum is \<open>t\<close>, the result of the region is \<open>s\<close> for \<open>t \<le> c\<close>, the
  boundary \<open>c = t\<close> included, and the empty string for \<open>c < t\<close>; the confidence stays
  \<open>c\<close> in both cases.
\<close>

theorem confidence_threshold:
  assumes "tr_is_initialized fl"
    and "tr_Infer ev cropped_text = (output_shape, buffer)"
    and "2 < length output_shape"
    and "output_shape ! 2 = length kAlphabet"
    and "CTCGreedyDecoder ev (take (output_shape ! 0 * output_shape ! 2) buffer)
           kAlphabet kPadSymbol 1 = (s, c)"
  shows "(FLAGS_thr fl \<le> c \<longrightarrow> recognize_region ev fl kAlphabet cropped_text = Inr (s, c))
       \<and> (c < FLAGS_thr fl \<longrightarrow> recognize_region ev fl kAlphabet cropped_text = Inr ([], c))"
  using assms by (simp add: recognize_region_def)

theorem confidence_threshold_witness:
  "tr_is_initialized flags1
   \<and> tr_Infer env1 (Whole frame1) = ([30, 1, 37], [])
   \<and> CTCGreedyDecoder env1 [] (FLAGS_m_tr_ss flags1 @ ''#'') kPadSymbol 1 = (''abc'', 1 / 2)
   \<and> FLAGS_thr flags1 = 1 / 2
   \<and> recognize_region env1 flags1 (FLAGS_m_tr_ss flags1 @ ''#'') (Whole frame1)
       = Inr (''abc'', 1 / 2)
   \<and> FLAGS_thr (flags1\<lparr> FLAGS_thr := 3 / 4 \<rparr>) = 3 / 4
   \<and> recognize_region env1 (flags1\<lparr> FLAGS_thr := 3 / 4 \<rparr>) (FLAGS_m_tr_ss flags1 @ ''#'')
         (Whole frame1)
       = Inr ([], 1 / 2)"
proof -
  have i: "tr_is_initialized flags1" "tr_is_initialized (flags1\<lparr> FLAGS_thr := 3 / 4 \<rparr>)"
    by (simp_all add: tr_is_initialized_def flags1_def)
  have inf: "tr_Infer env1 (Whole frame1) = ([30, 1, 37], [])" by (simp add: env1_def)
  have len: "2 < length [30::nat, 1, 37]" by simp
  have w: "[30::nat, 1, 37] ! 2 = length (FLAGS_m_tr_ss flags1 @ ''#'')"
    by (simp add: flags1_def)
  have dec: "CTCGreedyDecoder env1 (take ([30, 1, 37] ! 0 * [30, 1, 37] ! 2) [])
           (FLAGS_m_tr_ss flags1 @ ''#'') kPadSymbol 1 = (''abc'', 1 / 2)"
    by (simp add: env1_def)
  have dec': "CTCGreedyDecoder env1 [] (FLAGS_m_tr_ss flags1 @ ''#'') kPadSymbol 1 = (''abc'', 1 / 2)"
    by (simp add: env1_def)
  have t: "FLAGS_thr flags1 = 1 / 2" by (simp add: flags1_def)
  show ?thesis
    using confidence_threshold [OF i(1) inf len w dec]
          confidence_threshold [OF i(2) inf len w dec] i(1) inf dec' t
    by simp
qed

lemma cap_rects_single:
  "cap_rects ev fl [rect] = (if FLAGS_max_rect_num fl = 0 then [] else [rect])"
  by (simp add: cap_rects_def)

lemma crop_region_no_detector:
  assumes "\<not> td_is_initialized fl"
  shows "\<not> FLAGS_cc fl \<Longrightarrow> crop_region ev fl img rect = Inr (Whole img, [], 0)"
    and "FLAGS_cc fl \<Longrightarrow>
         crop_region ev fl img rect =
           (case mat_roi ev img (center_window img) of
              Inl e \<Rightarrow> Inl e
            | Inr c \<Rightarrow>
                Inr (c, [Point2f (float_of_int (r_x (center_window img)))
                                 (float_of_int (r_y (center_window img)))], 0))"
    and "crop_region ev fl img rect \<noteq> Inr (warpAffine img' M sz, pts, i)"
  using assms
  by (auto simp: crop_region_def Let_def mat_roi_def split: sum.splits)

lemma process_frame_single:
  assumes "cap_rects ev fl (frame_rects ev fl img) = [rect]"
  shows "process_frame ev fl kAlphabet img k =
           (case crop_region ev fl img rect of
              Inl e \<Rightarrow> ([], Inl e)
            | Inr (c, pts, i) \<Rightarrow>
           (case recognize_region ev fl kAlphabet c of
              Inl e \<Rightarrow> ([], Inl e)
            | Inr (res, conf) \<Rightarrow>
                (map Cout (print_region fl pts img res)
                 @ (if FLAGS_no_show fl then []
                    else [Cout (TStr to_close_message), Cout TEndl,
                          Imshow ((if tr_is_initialized fl then 0 else 1)
                                  + (if tr_is_initialized fl \<and> res \<noteq> [] then 1 else 0))]),
                 Inr (\<not> FLAGS_no_show fl \<and> k = 27))))"
  using assms
  by (simp add: process_frame_def process_region_def Let_def split: sum.splits prod.splits)

text \<open>
  Claim C7, as stated, fails. Without a detector and with a cap of 0 on the number of
  regions, the list of the one region of size zero is emptied by the cap before the loop
  over the regions: no region is processed in any frame, and the run prints nothing but
  the displays. With the same collaborators and no cap, each frame prints the line of
  the region.
\<close>

theorem no_detector_cap_zero:
  "\<not> td_is_initialized (flags1\<lparr> FLAGS_m_td := [], FLAGS_max_rect_num := 0 \<rparr>)
   \<and> frame_rects env1 (flags1\<lparr> FLAGS_m_td := [], FLAGS_max_rect_num := 0 \<rparr>) frame1
       = [RotatedRect (Point2f 0 0) (Size2f 0 0) 0]
   \<and> cap_rects env1 (flags1\<lparr> FLAGS_m_td := [], FLAGS_max_rect_num := 0 \<rparr>)
         (frame_rects env1 (flags1\<lparr> FLAGS_m_td := [], FLAGS_max_rect_num := 0 \<rparr>) frame1) = []
   \<and> process_frame env1 (flags1\<lparr> FLAGS_m_td := [], FLAGS_max_rect_num := 0 \<rparr>)
         (FLAGS_m_tr_ss flags1 @ [kPadSymbol]) frame1 0
       = ([Cout (TStr to_close_message), Cout TEndl, Imshow 0], Inr False)
   \<and> main env1 (flags1\<lparr> FLAGS_m_td := [], FLAGS_max_rect_num := 0 \<rparr>)
       = (Loop_left,
          [Cout (TStr to_close_message), Cout TEndl, Imshow 0,
           Cout (TStr to_close_message), Cout TEndl, Imshow 0])
   \<and> main env1 (flags1\<lparr> FLAGS_m_td := [] \<rparr>)
       = (Loop_left,
          [Cout (TStr '',''), Cout (TStr ''abc''), Cout TEndl,
           Cout (TStr to_close_message), Cout TEndl, Imshow 1,
           Cout (TStr '',''), Cout (TStr ''abc''), Cout TEndl,
           Cout (TStr to_close_message), Cout TEndl, Imshow 1])"
  by code_simp

text \<open>
  Claim C7, amended. With no detector configured, the list of regions of every frame is
  the one region of centre \<open>(0, 0)\<close>, width 0, height 0 and angle 0. Unless the cap
  \<open>FLAGS_max_rect_num\<close> is 0, this region is the one region that the frame processes:
  it is not rectified but takes the frame itself, or with \<open>FLAGS_cc\<close> the window at
  the centre of the frame (which OpenCV refuses with an exception when the window does
  not lie inside the frame), and what the frame prints, counts and displays is the
  result of recognising that picture. With a cap of 0 the list is emptied and the frame
  processes no region. Without a detector no region at all reaches \<open>warpAffine\<close>.
\<close>

theorem no_detector_frame:
  assumes "\<not> td_is_initialized fl"
  shows "frame_rects ev fl img = [RotatedRect (Point2f 0 0) (Size2f 0 0) 0]
       \<and> (FLAGS_max_rect_num fl = 0 \<longrightarrow>
            cap_rects ev fl (frame_rects ev fl img) = []
            \<and> process_frame ev fl kAlphabet img k =
                (frame_display fl, Inr (\<not> FLAGS_no_show fl \<and> k = 27)))
       \<and> (FLAGS_max_rect_num fl \<noteq> 0 \<longrightarrow>
            cap_rects ev fl (frame_rects ev fl img) = [RotatedRect (Point2f 0 0) (Size2f 0 0) 0]
            \<and> process_frame ev fl kAlphabet img k =
                (case crop_region ev fl img (RotatedRect (Point2f 0 0) (Size2f 0 0) 0) of
                   Inl e \<Rightarrow> ([], Inl e)
                 | Inr (c, pts, i) \<Rightarrow>
                (case recognize_region ev fl kAlphabet c of
                   Inl e \<Rightarrow> ([], Inl e)
                 | Inr (res, conf) \<Rightarrow>
                     (map Cout (print_region fl pts img res)
                      @ (if FLAGS_no_show fl then []
                         else [Cout (TStr to_close_message), Cout TEndl,
                               Imshow ((if tr_is_initialized fl then 0 else 1)
                                       + (if tr_is_initialized fl \<and> res \<noteq> [] then 1 else 0))]),
                      Inr (\<not> FLAGS_no_show fl \<and> k = 27)))))
       \<and> (\<not> FLAGS_cc fl \<longrightarrow>
            crop_region ev fl img (RotatedRect (Point2f 0 0) (Size2f 0 0) 0) =
              Inr (Whole img, [], 0))
       \<and> (FLAGS_cc fl \<longrightarrow>
            crop_region ev fl img (RotatedRect (Point2f 0 0) (Size2f 0 0) 0) =
              (case mat_roi ev img (center_window img) of
                 Inl e \<Rightarrow> Inl e
               | Inr c \<Rightarrow>
                   Inr (c, [Point2f (float_of_int (r_x (center_window img)))
                                    (float_of_int (r_y (center_window img)))], 0)))
       \<and> (\<forall>rect M sz. crop_region ev fl img rect \<noteq> Inr (warpAffine img M sz, pts', i'))"
proof (intro conjI impI)
  show fr: "frame_rects ev fl img = [RotatedRect (Point2f 0 0) (Size2f 0 0) 0]"
    using assms by (simp add: frame_rects_def)
  show "\<forall>rect M sz. crop_region ev fl img rect \<noteq> Inr (warpAffine img M sz, pts', i')"
    using crop_region_no_detector(3) [OF assms] by blast
  show "crop_region ev fl img (RotatedRect (Point2f 0 0) (Size2f 0 0) 0) =
              Inr (Whole img, [], 0)" if "\<not> FLAGS_cc fl"
    using crop_region_no_detector(1) [OF assms that] .
  show "crop_region ev fl img (RotatedRect (Point2f 0 0) (Size2f 0 0) 0) =
              (case mat_roi ev img (center_window img) of
                 Inl e \<Rightarrow> Inl e
               | Inr c \<Rightarrow>
                   Inr (c, [Point2f (float_of_int (r_x (center_window img)))
                                    (float_of_int (r_y (center_window img)))], 0))"
    if "FLAGS_cc fl"
    using crop_region_no_detector(2) [OF assms that] .
  {
    assume z: "FLAGS_max_rect_num fl = 0"
    show c0: "cap_rects ev fl (frame_rects ev fl img) = []"
      using z by (simp add: fr cap_rects_single)
    show "process_frame ev fl kAlphabet img k =
                (frame_display fl, Inr (\<not> FLAGS_no_show fl \<and> k = 27))"
      by (simp add: process_frame_def c0 frame_display_def Let_def)
  }
  {
    assume nz: "FLAGS_max_rect_num fl \<noteq> 0"
    show c1: "cap_rects ev fl (frame_rects ev fl img) = [RotatedRect (Point2f 0 0) (Size2f 0 0) 0]"
      using nz by (simp add: fr cap_rects_single)
    show "process_frame ev fl kAlphabet img k =
                (case crop_region ev fl img (RotatedRect (Point2f 0 0) (Size2f 0 0) 0) of
                   Inl e \<Rightarrow> ([], Inl e)
                 | Inr (c, pts, i) \<Rightarrow>
                (case recognize_region ev fl kAlphabet c of
                   Inl e \<Rightarrow> ([], Inl e)
                 | Inr (res, conf) \<Rightarrow>
                     (map Cout (print_region fl pts img res)
                      @ (if FLAGS_no_show fl then []
                         else [Cout (TStr to_close_message), Cout TEndl,
                               Imshow ((if tr_is_initialized fl then 0 else 1)
                                       + (if tr_is_initialized fl \<and> res \<noteq> [] then 1 else 0))]),
                      Inr (\<not> FLAGS_no_show fl \<and> k = 27))))"
      using process_frame_single [OF c1] .
  }
qed

theorem no_detector_frame_witness:
  "\<not> td_is_initialized (flags1\<lparr> FLAGS_m_td := [] \<rparr>)
   \<and> FLAGS_max_rect_num (flags1\<lparr> FLAGS_m_td := [] \<rparr>) = - 1
   \<and> frame_rects env1 (flags1\<lparr> FLAGS_m_td := [] \<rparr>) frame1
       = [RotatedRect (Point2f 0 0) (Size2f 0 0) 0]
   \<and> cap_rects env1 (flags1\<lparr> FLAGS_m_td := [] \<rparr>)
         (frame_rects env1 (flags1\<lparr> FLAGS_m_td := [] \<rparr>) frame1)
       = [RotatedRect (Point2f 0 0) (Size2f 0 0) 0]
   \<and> crop_region env1 (flags1\<lparr> FLAGS_m_td := [] \<rparr>) frame1
         (RotatedRect (Point2f 0 0) (Size2f 0 0) 0) = Inr (Whole frame1, [], 0)
   \<and> process_frame env1 (flags1\<lparr> FLAGS_m_td := [] \<rparr>) (FLAGS_m_tr_ss flags1 @ [kPadSymbol])
         frame1 0
       = ([Cout (TStr '',''), Cout (TStr ''abc''), Cout TEndl,
           Cout (TStr to_close_message), Cout TEndl, Imshow 1], Inr False)
   \<and> FLAGS_max_rect_num (flags1\<lparr> FLAGS_m_td := [], FLAGS_max_rect_num := 0 \<rparr>) = 0
   \<and> process_frame env1 (flags1\<lparr> FLAGS_m_td := [], FLAGS_max_rect_num := 0 \<rparr>)
         (FLAGS_m_tr_ss flags1 @ [kPadSymbol]) frame1 0
       = ([Cout (TStr to_close_message), Cout TEndl, Imshow 0], Inr False)
   \<and> FLAGS_cc (flags1\<lparr> FLAGS_m_td := [], FLAGS_cc := True \<rparr>)
   \<and> crop_region env1 (flags1\<lparr> FLAGS_m_td := [], FLAGS_cc := True \<rparr>) frame1
         (RotatedRect (Point2f 0 0) (Size2f 0 0) 0)
       = Inr (Roi frame1 (Rect 47 24 5 2), [Point2f 47 24], 0)"
proof -
  define fl where "fl = flags1\<lparr> FLAGS_m_td := [] \<rparr>"
  define fl0 where "fl0 = fl\<lparr> FLAGS_max_rect_num := 0 \<rparr>"
  define A where "A = FLAGS_m_tr_ss flags1 @ [kPadSymbol]"
  have n: "\<not> td_is_initialized fl" "\<not> td_is_initialized fl0"
    by (simp_all add: td_is_initialized_def fl0_def fl_def)
  have cap: "FLAGS_max_rect_num fl = - 1" "FLAGS_max_rect_num fl0 = 0"
    by (simp_all add: fl0_def fl_def flags1_def)
  have fls: "\<not> FLAGS_cc fl" "\<not> FLAGS_no_show fl" "tr_is_initialized fl" "FLAGS_r fl"
    "\<not> FLAGS_no_show fl0"
    by (simp_all add: fl0_def fl_def flags1_def tr_is_initialized_def)
  have rec: "recognize_region env1 fl A (Whole frame1) = Inr (''abc'', 1 / 2)"
    unfolding fl_def A_def by code_simp
  have pr: "print_region fl [] frame1 ''abc'' = [TStr '','', TStr ''abc'', TEndl]"
    unfolding fl_def by code_simp
  note inst = no_detector_frame [OF n(1),
      where ev = env1 and img = frame1 and kAlphabet = A and k = 0 and pts' = "[]" and i' = 0]
  note inst0 = no_detector_frame [OF n(2),
      where ev = env1 and img = frame1 and kAlphabet = A and k = 0 and pts' = "[]" and i' = 0]
  have nz: "FLAGS_max_rect_num fl \<noteq> 0" using cap by simp
  have fr: "frame_rects env1 fl frame1 = [RotatedRect (Point2f 0 0) (Size2f 0 0) 0]"
    using inst by (rule conjunct1)
  have cp: "cap_rects env1 fl (frame_rects env1 fl frame1) = [RotatedRect (Point2f 0 0) (Size2f 0 0) 0]"
    and cr: "crop_region env1 fl frame1 (RotatedRect (Point2f 0 0) (Size2f 0 0) 0) =
               Inr (Whole frame1, [], 0)"
    using inst nz fls(1) by auto
  have pf: "process_frame env1 fl A frame1 0 =
                    (case recognize_region env1 fl A (Whole frame1) of
                       Inl e \<Rightarrow> ([], Inl e)
                     | Inr (res, conf) \<Rightarrow>
                         (map Cout (print_region fl [] frame1 res)
                          @ (if FLAGS_no_show fl then []
                             else [Cout (TStr to_close_message), Cout TEndl,
                                   Imshow ((if tr_is_initialized fl then 0 else 1)
                                           + (if tr_is_initialized fl \<and> res \<noteq> [] then 1 else 0))]),
                          Inr (\<not> FLAGS_no_show fl \<and> (0::int) = 27)))"
    using inst nz cr by auto
  have pf': "process_frame env1 fl A frame1 0 =
      ([Cout (TStr '',''), Cout (TStr ''abc''), Cout TEndl,
           Cout (TStr to_close_message), Cout TEndl, Imshow 1], Inr False)"
    using pf by (simp add: rec pr fls)
  have pf0: "process_frame env1 fl0 A frame1 0 =
      ([Cout (TStr to_close_message), Cout TEndl, Imshow 0], Inr False)"
    using inst0 cap(2) fls(5) by (simp add: frame_display_def)
  define flc where "flc = fl\<lparr> FLAGS_cc := True \<rparr>"
  have nc: "\<not> td_is_initialized flc" by (simp add: td_is_initialized_def flc_def fl_def)
  have cc: "FLAGS_cc flc" by (simp add: flc_def)
  note instc = no_detector_frame [OF nc,
      where ev = env1 and img = frame1 and kAlphabet = A and k = 0 and pts' = "[]" and i' = 0]
  have cw: "center_window frame1 = Rect 47 24 5 2" by code_simp
  have mr: "mat_roi env1 frame1 (Rect 47 24 5 2) = Inr (Roi frame1 (Rect 47 24 5 2))"
    by (simp add: mat_roi_def frame1_def)
  have f: "float_of_int 47 = 47" "float_of_int 24 = 24"
    using float_of_int_exact [of 47] float_of_int_exact [of 24] by simp_all
  have crc: "crop_region env1 flc frame1 (RotatedRect (Point2f 0 0) (Size2f 0 0) 0)
       = Inr (Roi frame1 (Rect 47 24 5 2), [Point2f 47 24], 0)"
    using instc cc by (simp add: cw mr f)
  show ?thesis
    using n(1) cap fr cp cr pf' pf0 cc crc
    unfolding flc_def [symmetric] fl0_def [symmetric] fl_def [symmetric] A_def [symmetric]
    by simp
qed

lemma clip_range: "0 \<le> m \<Longrightarrow> 0 \<le> clip v m \<and> clip v m \<le> m"
  by (simp add: clip_def)

lemma print_points_drop:
  "print_points points img i = comma_separated (concat (map (clamped_coordinates img) (drop i points)))"
proof (induction "length points - i" arbitrary: i)
  case 0
  then show ?case by (simp add: print_points.simps [of points img i])
next
  case (Suc d)
  then have lt: "i < length points" by simp
  have d: "d = length points - Suc i" using Suc.hyps(2) by simp
  have ih: "print_points points img (Suc i) =
      comma_separated (concat (map (clamped_coordinates img) (drop (Suc i) points)))"
    using Suc.hyps(1) [OF d] .
  have dr: "drop i points = points ! i # drop (Suc i) points"
    using lt by (simp add: Cons_nth_drop_Suc)
  show ?case
  proof (cases "Suc i < length points")
    case True
    then have "drop (Suc i) points = points ! Suc i # drop (Suc (Suc i)) points"
      by (simp add: Cons_nth_drop_Suc)
    then show ?thesis
      using lt True ih dr
      by (simp add: print_points.simps [of points img i] clamped_coordinates_def clip_def)
  next
    case False
    then have "drop (Suc i) points = []" "length points - 1 = i" using lt by simp_all
    then show ?thesis
      using lt ih dr
      by (simp add: print_points.simps [of points img i] clamped_coordinates_def clip_def)
  qed
qed

text \<open>
  Claim C9. In the raw output of a region, for a frame of \<open>W\<close> columns and \<open>H\<close>
  rows (at least one of each), the line is the coordinates of all points in their
  order, \<open>x\<close> before \<open>y\<close>, with a comma between each two, then a comma and the decoded
  string when the recognizer is configured, then the end of the line. Each coordinate
  is the integer \<open>min (max (int v) 0) (W - 1)\<close>, or \<open>H - 1\<close> for \<open>y\<close>, and so lies
  between 0 and the dimension less one.
\<close>

theorem print_region_clamped:
  assumes "FLAGS_r fl" and "0 < cols img" and "0 < rows img"
  shows "print_region fl points img res =
           comma_separated (concat (map (clamped_coordinates img) points))
           @ (if tr_is_initialized fl then [TStr '','', TStr res] else [])
           @ [TEndl]
       \<and> (\<forall>p. clamped_coordinates img p =
                  [TInt (clip (static_cast_int (pt_x p)) (cols img - 1)),
                   TInt (clip (static_cast_int (pt_y p)) (rows img - 1))]
              \<and> 0 \<le> clip (static_cast_int (pt_x p)) (cols img - 1)
              \<and> clip (static_cast_int (pt_x p)) (cols img - 1) \<le> cols img - 1
              \<and> 0 \<le> clip (static_cast_int (pt_y p)) (rows img - 1)
              \<and> clip (static_cast_int (pt_y p)) (rows img - 1) \<le> rows img - 1)"
proof (intro conjI allI)
  show "print_region fl points img res =
           comma_separated (concat (map (clamped_coordinates img) points))
           @ (if tr_is_initialized fl then [TStr '','', TStr res] else [])
           @ [TEndl]"
    using assms(1) by (simp add: print_region_def print_points_drop)
next
  fix p
  show "clamped_coordinates img p =
                  [TInt (clip (static_cast_int (pt_x p)) (cols img - 1)),
                   TInt (clip (static_cast_int (pt_y p)) (rows img - 1))]"
    by (simp add: clamped_coordinates_def clip_def)
next
  fix p
  have c: "0 \<le> cols img - 1" using assms(2) by simp
  show "0 \<le> clip (static_cast_int (pt_x p)) (cols img - 1)"
    using clip_range [OF c] by blast
  show "clip (static_cast_int (pt_x p)) (cols img - 1) \<le> cols img - 1"
    using clip_range [OF c] by blast
next
  fix p
  have r: "0 \<le> rows img - 1" using assms(3) by simp
  show "0 \<le> clip (static_cast_int (pt_y p)) (rows img - 1)"
    using clip_range [OF r] by blast
  show "clip (static_cast_int (pt_y p)) (rows img - 1) \<le> rows img - 1"
    using clip_range [OF r] by blast
qed

theorem print_region_clamped_witness:
  "FLAGS_r flags1 \<and> 0 < cols frame1 \<and> 0 < rows frame1
   \<and> print_region flags1 [Point2f (- 3) 20, Point2f 250 (99 / 2)] frame1 ''abc'' =
       [TInt 0, TStr '','', TInt 20, TStr '','', TInt 99, TStr '','', TInt 49,
        TStr '','', TStr ''abc'', TEndl]"
proof -
  have r: "FLAGS_r flags1" by (simp add: flags1_def)
  have c: "0 < cols frame1" "0 < rows frame1" by (simp_all add: frame1_def)
  have i: "tr_is_initialized flags1" by (simp add: tr_is_initialized_def flags1_def)
  have v: "static_cast_int (- 3) = - 3" "static_cast_int 20 = 20" "static_cast_int 250 = 250"
    "static_cast_int (99 / 2) = 49"
    by (simp_all add: static_cast_int_def)
  show ?thesis
    using print_region_clamped [OF r c, of "[Point2f (- 3) 20, Point2f 250 (99 / 2)]" "''abc''"]
      r c i v
    by (simp add: clamped_coordinates_def frame1_def)
qed

lemma sorted_take_drop:
  assumes "sorted_wrt P ys"
  shows "\<forall>a\<in>set (take n ys). \<forall>b\<in>set (drop n ys). P a b"
proof -
  have "sorted_wrt P (take n ys @ drop n ys)" using assms by simp
  then show ?thesis unfolding sorted_wrt_append by blast
qed

text \<open>
  Claim C6. Let \<open>N\<close> be the cap \<open>FLAGS_max_rect_num\<close>, and let \<open>std::sort\<close> keep its
  promise on the list of regions. If \<open>N\<close> is not negative and the list has more than
  \<open>N\<close> regions, the list that goes on has \<open>N\<close> regions of the list, in descending
  order of area, and each of them has at least the area of every region left out. If
  \<open>N\<close> is negative or the list has at most \<open>N\<close> regions, the list goes on as it is.
\<close>

theorem cap_rects_largest:
  assumes "std_sort_post (\<lambda>a b. area ev (rr_size a) > area ev (rr_size b)) rects
             (std_sort ev (\<lambda>a b. area ev (rr_size a) > area ev (rr_size b)) rects)"
  shows "(0 \<le> FLAGS_max_rect_num fl \<and> FLAGS_max_rect_num fl < int (length rects) \<longrightarrow>
            length (cap_rects ev fl rects) = nat (FLAGS_max_rect_num fl)
          \<and> sorted_wrt (\<lambda>a b. area ev (rr_size a) \<ge> area ev (rr_size b)) (cap_rects ev fl rects)
          \<and> mset (cap_rects ev fl rects) \<subseteq># mset rects
          \<and> (\<forall>a\<in>set (cap_rects ev fl rects).
                \<forall>b\<in>#(mset rects - mset (cap_rects ev fl rects)).
                  area ev (rr_size b) \<le> area ev (rr_size a)))
       \<and> (FLAGS_max_rect_num fl < 0 \<or> int (length rects) \<le> FLAGS_max_rect_num fl \<longrightarrow>
            cap_rects ev fl rects = rects)"
proof (intro conjI impI)
  assume "FLAGS_max_rect_num fl < 0 \<or> int (length rects) \<le> FLAGS_max_rect_num fl"
  then show "cap_rects ev fl rects = rects" by (auto simp: cap_rects_def)
next
  assume cap: "0 \<le> FLAGS_max_rect_num fl \<and> FLAGS_max_rect_num fl < int (length rects)"
  define n where "n = nat (FLAGS_max_rect_num fl)"
  define ys where "ys = std_sort ev (\<lambda>a b. area ev (rr_size a) > area ev (rr_size b)) rects"
  have out: "cap_rects ev fl rects = take n ys"
    using cap by (simp add: cap_rects_def n_def ys_def)
  have ms: "mset ys = mset rects"
    and so: "sorted_wrt (\<lambda>a b. \<not> area ev (rr_size b) > area ev (rr_size a)) ys"
    using assms by (simp_all add: std_sort_post_def ys_def)
  have so': "sorted_wrt (\<lambda>a b. area ev (rr_size a) \<ge> area ev (rr_size b)) ys"
    using so by (simp add: not_less)
  have len: "length ys = length rects" using ms by (metis size_mset)
  have n: "n < length ys" using cap len unfolding n_def by linarith
  have split: "mset rects = mset (take n ys) + mset (drop n ys)"
    using ms by (metis append_take_drop_id mset_append)
  show "length (cap_rects ev fl rects) = nat (FLAGS_max_rect_num fl)"
    using n by (simp add: out n_def)
  show "sorted_wrt (\<lambda>a b. area ev (rr_size a) \<ge> area ev (rr_size b)) (cap_rects ev fl rects)"
    unfolding out using so' by (rule sorted_wrt_take)
  show "mset (cap_rects ev fl rects) \<subseteq># mset rects"
    unfolding out split by simp
  have rest: "mset rects - mset (take n ys) = mset (drop n ys)"
    unfolding split by simp
  show "\<forall>a\<in>set (cap_rects ev fl rects).
                \<forall>b\<in>#(mset rects - mset (cap_rects ev fl rects)).
                  area ev (rr_size b) \<le> area ev (rr_size a)"
    unfolding out rest using sorted_take_drop [OF so', of n] by simp
qed

theorem cap_rects_largest_witness:
  "FLAGS_max_rect_num (flags1\<lparr> FLAGS_max_rect_num := 2 \<rparr>) = 2
   \<and> length [small_rect, large_rect, word_rect] = 3
   \<and> cap_rects env1 (flags1\<lparr> FLAGS_max_rect_num := 2 \<rparr>) [small_rect, large_rect, word_rect]
       = [large_rect, word_rect]
   \<and> cap_rects env1 (flags1\<lparr> FLAGS_max_rect_num := 3 \<rparr>) [small_rect, large_rect, word_rect]
       = [small_rect, large_rect, word_rect]
   \<and> cap_rects env1 flags1 [small_rect, large_rect, word_rect]
       = [small_rect, large_rect, word_rect]"
proof -
  have srt: "std_sort env1 (\<lambda>a b. area env1 (rr_size a) > area env1 (rr_size b))
               [small_rect, large_rect, word_rect] = [large_rect, word_rect, small_rect]"
    by (simp add: env1_def example_sort_def area_def small_rect_def large_rect_def word_rect_def)
  have post: "std_sort_post (\<lambda>a b. area env1 (rr_size a) > area env1 (rr_size b))
             [small_rect, large_rect, word_rect]
             (std_sort env1 (\<lambda>a b. area env1 (rr_size a) > area env1 (rr_size b))
                [small_rect, large_rect, word_rect])"
    unfolding srt
    by (simp add: std_sort_post_def env1_def area_def small_rect_def large_rect_def word_rect_def)
  have c: "cap_rects env1 (flags1\<lparr> FLAGS_max_rect_num := 2 \<rparr>) [small_rect, large_rect, word_rect]
       = [large_rect, word_rect]"
    using srt by (simp add: cap_rects_def)
  show ?thesis
    using cap_rects_largest [OF post, of "flags1\<lparr> FLAGS_max_rect_num := 2 \<rparr>"]
          cap_rects_largest [OF post, of "flags1\<lparr> FLAGS_max_rect_num := 3 \<rparr>"]
          cap_rects_largest [OF post, of flags1] c
    by (simp add: flags1_def)
qed

lemma recognize_region_mismatch:
  assumes "tr_is_initialized fl"
    and "\<forall>c. 2 < length (fst (tr_Infer ev c)) \<and> fst (tr_Infer ev c) ! 2 \<noteq> length kAlphabet"
  shows "recognize_region ev fl kAlphabet c = Inl (runtime_error alphabet_mismatch_message)"
proof -
  obtain output_shape buffer where inf: "tr_Infer ev c = (output_shape, buffer)"
    by (cases "tr_Infer ev c")
  have "2 < length output_shape \<and> output_shape ! 2 \<noteq> length kAlphabet"
    using assms(2) inf by (metis fst_conv)
  then show ?thesis
    using assms(1) inf by (simp add: recognize_region_def)
qed

lemma process_region_mismatch:
  assumes "tr_is_initialized fl"
    and "\<forall>c. 2 < length (fst (tr_Infer ev c)) \<and> fst (tr_Infer ev c) ! 2 \<noteq> length kAlphabet"
  shows "\<exists>e. process_region ev fl kAlphabet img rect = Inl e"
    and "crop_region ev fl img rect = Inr cr \<Longrightarrow>
         process_region ev fl kAlphabet img rect = Inl (runtime_error alphabet_mismatch_message)"
  using recognize_region_mismatch [OF assms]
  by (auto simp: process_region_def split: sum.splits prod.splits)

lemma regions_loop_mismatch:
  assumes "tr_is_initialized fl"
    and "\<forall>c. 2 < length (fst (tr_Infer ev c)) \<and> fst (tr_Infer ev c) ! 2 \<noteq> length kAlphabet"
  shows "regions_loop ev fl kAlphabet img [] nf = ([], Inr nf)"
    and "\<exists>e. regions_loop ev fl kAlphabet img (rect # rects) nf = ([], Inl e)"
    and "crop_region ev fl img rect = Inr cr \<Longrightarrow>
         regions_loop ev fl kAlphabet img (rect # rects) nf =
           ([], Inl (runtime_error alphabet_mismatch_message))"
proof -
  show "regions_loop ev fl kAlphabet img [] nf = ([], Inr nf)" by simp
  obtain e where "process_region ev fl kAlphabet img rect = Inl e"
    using process_region_mismatch(1) [OF assms] by blast
  then show "\<exists>e. regions_loop ev fl kAlphabet img (rect # rects) nf = ([], Inl e)" by simp
  assume "crop_region ev fl img rect = Inr cr"
  then show "regions_loop ev fl kAlphabet img (rect # rects) nf =
           ([], Inl (runtime_error alphabet_mismatch_message))"
    using process_region_mismatch(2) [OF assms] by simp
qed

lemma process_frame_mismatch:
  assumes "tr_is_initialized fl"
    and "\<forall>c. 2 < length (fst (tr_Infer ev c)) \<and> fst (tr_Infer ev c) ! 2 \<noteq> length kAlphabet"
  shows "list_all display_event (fst (process_frame ev fl kAlphabet img k))"
proof (cases "cap_rects ev fl (frame_rects ev fl img)")
  case Nil
  then show ?thesis
    by (simp add: process_frame_def Let_def display_event_def)
next
  case (Cons rect rects)
  obtain e where "regions_loop ev fl kAlphabet img (rect # rects)
      (if tr_is_initialized fl then 0 else int (length (rect # rects))) = ([], Inl e)"
    using regions_loop_mismatch(2) [OF assms] by blast
  then show ?thesis
    using Cons by (simp add: process_frame_def Let_def)
qed

lemma frames_loop_mismatch:
  assumes "tr_is_initialized fl"
    and "\<forall>c. 2 < length (fst (tr_Infer ev c)) \<and> fst (tr_Infer ev c) ! 2 \<noteq> length kAlphabet"
  shows "list_all display_event (fst (frames_loop ev fl kAlphabet frames))"
proof (induction frames)
  case Nil
  then show ?case by simp
next
  case (Cons f frames)
  obtain img k where f: "f = (img, k)" by (cases f)
  have pf: "list_all display_event (fst (process_frame ev fl kAlphabet img k))"
    using assms by (rule process_frame_mismatch)
  show ?case
    using pf Cons.IH
    by (auto simp: f split: prod.splits sum.splits)
qed

text \<open>
  Claim C2, as stated, fails. With an alphabet of 37 symbols and a recognizer of width
  38, the first frame, in which the detector finds no region, is processed and
  displayed before the error of the second frame; and a run whose only frame has no
  region leaves the loop without any error.
\<close>

theorem alphabet_mismatch_after_display:
  "length (FLAGS_m_tr_ss flags1 @ [kPadSymbol]) = 37
   \<and> fst (tr_Infer env2 (Whole frame0)) ! 2 = 38
   \<and> main env2 flags1 =
       (EXIT_FAILURE (runtime_error alphabet_mismatch_message),
        [Cout (TStr to_close_message), Cout TEndl, Imshow 0, Cerr alphabet_mismatch_message])
   \<and> main (env2\<lparr> grabber := [(frame0, 0)] \<rparr>) flags1 =
       (Loop_left, [Cout (TStr to_close_message), Cout TEndl, Imshow 0])"
  by code_simp

lemma process_frame_quiet:
  assumes "quiet_frame ev fl (img, k)"
  shows "process_frame ev fl kAlphabet img k = (frame_display fl, Inr False)"
  using assms by (auto simp: quiet_frame_def process_frame_def frame_display_def Let_def)

lemma frames_loop_quiet_prefix:
  assumes "list_all (quiet_frame ev fl) pre"
  shows "frames_loop ev fl kAlphabet (pre @ frames) =
           (concat (map (\<lambda>f. frame_display fl) pre) @ fst (frames_loop ev fl kAlphabet frames),
            snd (frames_loop ev fl kAlphabet frames))"
  using assms
proof (induction pre)
  case Nil
  then show ?case by simp
next
  case (Cons f pre)
  obtain img k where f: "f = (img, k)" by (cases f)
  have q: "quiet_frame ev fl (img, k)" using Cons.prems f by simp
  then have ne: "\<not> mat_empty img" by (simp add: quiet_frame_def)
  have ih: "frames_loop ev fl kAlphabet (pre @ frames) =
           (concat (map (\<lambda>f. frame_display fl) pre) @ fst (frames_loop ev fl kAlphabet frames),
            snd (frames_loop ev fl kAlphabet frames))"
    using Cons.IH Cons.prems by simp
  show ?case
    by (simp add: f ne process_frame_quiet [OF q] ih)
qed

text \<open>
  Claim C2, amended. The width of the recognizer's output is compared with the length
  of the alphabet for each region, after the inference on its crop. When the two differ
  for every crop, the run fails with the \<open>runtime_error\<close> at the first region that
  reaches the recognizer. Whenever frames without regions, none of which ends the loop,
  come before a frame with a region whose crop succeeds, \<open>main\<close> ends in the \<open>catch\<close>
  block with \<open>EXIT_FAILURE\<close>, and its trace is the displays of those earlier frames
  followed by the error message, and nothing else. A run all of whose frames are
  without regions leaves the frame loop with their displays and without the error. In
  every run, no part of a region's line is printed by the frame loop.
\<close>

theorem alphabet_mismatch_first_region:
  assumes parse: "ParseAndCheckCommandLine fl = Inr True"
    and pad: "kPadSymbol \<notin> set (FLAGS_m_tr_ss fl)"
    and tr: "tr_is_initialized fl"
    and mis: "\<forall>c. 2 < length (fst (tr_Infer ev c))
                \<and> fst (tr_Infer ev c) ! 2 \<noteq> length (FLAGS_m_tr_ss fl @ [kPadSymbol])"
  shows "(\<forall>pre img k rest rect rects cr.
            grabber ev = pre @ (img, k) # rest
            \<and> list_all (quiet_frame ev fl) pre
            \<and> \<not> mat_empty img
            \<and> cap_rects ev fl (frame_rects ev fl img) = rect # rects
            \<and> crop_region ev fl img rect = Inr cr
            \<longrightarrow> main ev fl =
                  (EXIT_FAILURE (runtime_error alphabet_mismatch_message),
                   concat (map (\<lambda>f. frame_display fl) pre) @ [Cerr alphabet_mismatch_message]))
       \<and> (list_all (quiet_frame ev fl) (grabber ev) \<longrightarrow>
            main ev fl = (Loop_left, concat (map (\<lambda>f. frame_display fl) (grabber ev))))
       \<and> list_all display_event
            (fst (frames_loop ev fl (FLAGS_m_tr_ss fl @ [kPadSymbol]) (grabber ev)))"
proof (intro conjI allI impI)
  fix pre img k rest rect rects cr
  assume h: "grabber ev = pre @ (img, k) # rest
            \<and> list_all (quiet_frame ev fl) pre
            \<and> \<not> mat_empty img
            \<and> cap_rects ev fl (frame_rects ev fl img) = rect # rects
            \<and> crop_region ev fl img rect = Inr cr"
  then have "regions_loop ev fl (FLAGS_m_tr_ss fl @ [kPadSymbol]) img (rect # rects)
      (if tr_is_initialized fl then 0 else int (length (rect # rects))) =
           ([], Inl (runtime_error alphabet_mismatch_message))"
    using regions_loop_mismatch(3) [OF tr mis] by blast
  then have "process_frame ev fl (FLAGS_m_tr_ss fl @ [kPadSymbol]) img k =
      ([], Inl (runtime_error alphabet_mismatch_message))"
    using h by (simp add: process_frame_def Let_def)
  then have here: "frames_loop ev fl (FLAGS_m_tr_ss fl @ [kPadSymbol]) ((img, k) # rest) =
      ([], Some (runtime_error alphabet_mismatch_message))"
    using h by simp
  have "frames_loop ev fl (FLAGS_m_tr_ss fl @ [kPadSymbol]) (grabber ev) =
      (concat (map (\<lambda>f. frame_display fl) pre),
       Some (runtime_error alphabet_mismatch_message))"
    using h frames_loop_quiet_prefix [of ev fl pre "FLAGS_m_tr_ss fl @ [kPadSymbol]" "(img, k) # rest"]
      here by simp
  then show "main ev fl =
                  (EXIT_FAILURE (runtime_error alphabet_mismatch_message),
                   concat (map (\<lambda>f. frame_display fl) pre) @ [Cerr alphabet_mismatch_message])"
    using parse pad by (simp add: main_def catch_def what_def)
next
  assume q: "list_all (quiet_frame ev fl) (grabber ev)"
  have "frames_loop ev fl (FLAGS_m_tr_ss fl @ [kPadSymbol]) (grabber ev) =
      (concat (map (\<lambda>f. frame_display fl) (grabber ev)), None)"
    using frames_loop_quiet_prefix [OF q, of "FLAGS_m_tr_ss fl @ [kPadSymbol]" "[]"] by simp
  then show "main ev fl = (Loop_left, concat (map (\<lambda>f. frame_display fl) (grabber ev)))"
    using parse pad by (simp add: main_def)
next
  show "list_all display_event
            (fst (frames_loop ev fl (FLAGS_m_tr_ss fl @ [kPadSymbol]) (grabber ev)))"
    using tr mis by (rule frames_loop_mismatch)
qed

theorem alphabet_mismatch_first_region_witness:
  "ParseAndCheckCommandLine flags1 = Inr True
   \<and> kPadSymbol \<notin> set (FLAGS_m_tr_ss flags1)
   \<and> tr_is_initialized flags1
   \<and> grabber env2 = [(frame0, 0)] @ (frame1, 0) # []
   \<and> quiet_frame env2 flags1 (frame0, 0)
   \<and> \<not> mat_empty frame1
   \<and> cap_rects env2 flags1 (frame_rects env2 flags1 frame1) = [word_rect]
   \<and> main env2 flags1 =
       (EXIT_FAILURE (runtime_error alphabet_mismatch_message),
        [Cout (TStr to_close_message), Cout TEndl, Imshow 0, Cerr alphabet_mismatch_message])
   \<and> grabber (env2\<lparr> grabber := [(frame0, 0), (frame0, 13)] \<rparr>) = [(frame0, 0), (frame0, 13)]
   \<and> main (env2\<lparr> grabber := [(frame0, 0), (frame0, 13)] \<rparr>) flags1 =
       (Loop_left,
        [Cout (TStr to_close_message), Cout TEndl, Imshow 0,
         Cout (TStr to_close_message), Cout TEndl, Imshow 0])"
proof -
  define ev' where "ev' = env2\<lparr> grabber := [(frame0, 0), (frame0, 13)] \<rparr>"
  have parse: "ParseAndCheckCommandLine flags1 = Inr True"
    by (simp add: ParseAndCheckCommandLine_def flags1_def)
  have pad: "kPadSymbol \<notin> set (FLAGS_m_tr_ss flags1)"
    by (simp add: kPadSymbol_def flags1_def)
  have tr: "tr_is_initialized flags1" by (simp add: tr_is_initialized_def flags1_def)
  have mis: "\<forall>c. 2 < length (fst (tr_Infer env2 c))
                \<and> fst (tr_Infer env2 c) ! 2 \<noteq> length (FLAGS_m_tr_ss flags1 @ [kPadSymbol])"
    by (simp add: env2_def flags1_def)
  have mis': "\<forall>c. 2 < length (fst (tr_Infer ev' c))
                \<and> fst (tr_Infer ev' c) ! 2 \<noteq> length (FLAGS_m_tr_ss flags1 @ [kPadSymbol])"
    by (simp add: ev'_def env2_def flags1_def)
  have g: "grabber env2 = [(frame0, 0)] @ (frame1, 0) # []"
    by (simp add: env2_def env1_def)
  have g': "grabber ev' = [(frame0, 0), (frame0, 13)]" by (simp add: ev'_def)
  have q0: "quiet_frame env2 flags1 (frame0, 0)" by code_simp
  have q: "list_all (quiet_frame env2 flags1) [(frame0, 0)]" using q0 by simp
  have q': "list_all (quiet_frame ev' flags1) (grabber ev')"
    unfolding g' unfolding ev'_def by code_simp
  have ne: "\<not> mat_empty frame1" by (simp add: mat_empty_def frame1_def)
  have rects: "cap_rects env2 flags1 (frame_rects env2 flags1 frame1) = word_rect # []"
    by code_simp
  have crop: "crop_region env2 flags1 frame1 word_rect =
      Inr (warpAffine frame1
             (getAffineTransform
                [Point2f 40 21, Point2f 60 17, Point2f 62 27]
                [Point2f 0 0, Point2f 119 0, Point2f 119 31])
             (Size 120 32),
           [Point2f 42 31, Point2f 40 21, Point2f 60 17, Point2f 62 27], 1)"
    by code_simp
  have d: "frame_display flags1 = [Cout (TStr to_close_message), Cout TEndl, Imshow 0]"
    by (simp add: frame_display_def flags1_def)
  have prem: "grabber env2 = [(frame0, 0)] @ (frame1, 0) # []
            \<and> list_all (quiet_frame env2 flags1) [(frame0, 0)]
            \<and> \<not> mat_empty frame1
            \<and> cap_rects env2 flags1 (frame_rects env2 flags1 frame1) = word_rect # []
            \<and> crop_region env2 flags1 frame1 word_rect =
                Inr (warpAffine frame1
                       (getAffineTransform
                          [Point2f 40 21, Point2f 60 17, Point2f 62 27]
                          [Point2f 0 0, Point2f 119 0, Point2f 119 31])
                       (Size 120 32),
                     [Point2f 42 31, Point2f 40 21, Point2f 60 17, Point2f 62 27], 1)"
    using g q ne rects crop by (intro conjI)
  note inst1 = alphabet_mismatch_first_region [OF parse pad tr mis]
  note inst2 = alphabet_mismatch_first_region [OF parse pad tr mis']
  have fails: "main env2 flags1 =
       (EXIT_FAILURE (runtime_error alphabet_mismatch_message),
        concat (map (\<lambda>f. frame_display flags1) [(frame0, 0::int)]) @ [Cerr alphabet_mismatch_message])"
    using inst1 [THEN conjunct1, rule_format, OF prem] .
  have leaves: "main ev' flags1 =
       (Loop_left, concat (map (\<lambda>f. frame_display flags1) (grabber ev')))"
    using inst2 [THEN conjunct2, THEN conjunct1, rule_format, OF q'] .
  show ?thesis
    using fails leaves parse pad tr g g' q0 ne rects
    unfolding ev'_def [symmetric] by (simp add: d)
qed

end
